theory Spec2Isabelle
  imports Main "HOL-Library.AList" "HOL-Library.Sublist"
begin

section \<open>The JSON API serializer of kudu-serializer-jsonapi\<close>

text \<open>
  A shallow embedding of the serializer module (the later revision of
  \<^verbatim>\<open>src/serializer.js\<close>, the one with the recursive compound document walk and the
  \<^verbatim>\<open>flatten\<close> helper): \<^verbatim>\<open>toJSON\<close>, \<^verbatim>\<open>errorsToJSON\<close>, \<^verbatim>\<open>buildResource\<close>,
  \<^verbatim>\<open>buildCompoundDocuments\<close> and \<^verbatim>\<open>flatten\<close>.
\<close>

subsection \<open>JavaScript values\<close>

text \<open>
  The schema a Kudu model constructor carries. A property schema entry is an object
  with an optional \<^verbatim>\<open>public\<close> flag (\<open>None\<close> is \<^verbatim>\<open>undefined\<close>); a relationship schema
  entry names the target type. Both schemas are objects, read with \<^verbatim>\<open>Object.keys\<close> and
  by key: association lists in key order. \<^verbatim>\<open>relationships\<close> may be missing from a
  schema (the code reads \<^verbatim>\<open>schema.relationships || {}\<close>), and so may \<^verbatim>\<open>properties\<close>.
\<close>

record propSchema =
  public :: "bool option"

record relSchema =
  rel_type :: string
  hasMany :: "bool option"

record schema =
  properties :: "(string \<times> propSchema) list option"
  relationships :: "(string \<times> relSchema) list option"

text \<open>
  What \<^verbatim>\<open>instance.constructor\<close> is when no own property shadows it. A Kudu model
  constructor exposes \<^verbatim>\<open>singular\<close>, \<^verbatim>\<open>plural\<close> and \<^verbatim>\<open>schema\<close>; the prototype of its
  instances gives them no data property. A constructor that is not a Kudu model
  (\<^verbatim>\<open>Object\<close>, \<^verbatim>\<open>Error\<close>) has no \<^verbatim>\<open>schema\<close>, \<^verbatim>\<open>singular\<close> or \<^verbatim>\<open>plural\<close>; its instances
  inherit the data properties of its prototype (\<^verbatim>\<open>message\<close> and \<^verbatim>\<open>name\<close> for \<^verbatim>\<open>Error\<close>).
\<close>

datatype 'v ctor =
    Constructor string string schema
  | Builtin "(string \<times> 'v) list"

fun singular :: "'v ctor \<Rightarrow> string" where
  "singular (Constructor s p sch) = s"
| "singular (Builtin inh) = []"

fun plural :: "'v ctor \<Rightarrow> string" where
  "plural (Constructor s p sch) = p"
| "plural (Builtin inh) = []"

fun ctor_schema :: "'v ctor \<Rightarrow> schema option" where
  "ctor_schema (Constructor s p sch) = Some sch"
| "ctor_schema (Builtin inh) = None"

fun inherited :: "'v ctor \<Rightarrow> (string \<times> 'v) list" where
  "inherited (Constructor s p sch) = []"
| "inherited (Builtin inh) = inh"

text \<open>
  Values are data: there are no function values. Numbers are the integer-valued ones and
  \<^verbatim>\<open>NaN\<close>. Arrays and objects carry the address that is their identity under \<^verbatim>\<open>===\<close>.
  An object has its constructor and its own enumerable properties in \<^verbatim>\<open>Object.keys\<close>
  order (the first entry of a key counts).
\<close>

datatype jsval =
    JUndefined
  | JNull
  | JBool bool
  | JNum int
  | JNaN
  | JStr string
  | JArr nat "jsval list"
  | JObj nat "jsval ctor" "(string \<times> jsval) list"

datatype js_error = Error string | TypeError

fun truthy :: "jsval \<Rightarrow> bool" where
  "truthy JUndefined = False"
| "truthy JNull = False"
| "truthy (JBool b) = b"
| "truthy (JNum n) = (n \<noteq> 0)"
| "truthy JNaN = False"
| "truthy (JStr s) = (s \<noteq> [])"
| "truthy (JArr r xs) = True"
| "truthy (JObj r c props) = True"

fun nullish :: "jsval \<Rightarrow> bool" where
  "nullish JUndefined = True"
| "nullish JNull = True"
| "nullish v = False"

text \<open>\<^verbatim>\<open>a === b\<close>: by value on primitives (never for \<^verbatim>\<open>NaN\<close>), by identity otherwise.\<close>

fun strict_eq :: "jsval \<Rightarrow> jsval \<Rightarrow> bool" where
  "strict_eq JUndefined JUndefined = True"
| "strict_eq JNull JNull = True"
| "strict_eq (JBool a) (JBool b) = (a = b)"
| "strict_eq (JNum a) (JNum b) = (a = b)"
| "strict_eq (JStr a) (JStr b) = (a = b)"
| "strict_eq (JArr r xs) (JArr r' ys) = (r = r')"
| "strict_eq (JObj r c ps) (JObj r' c' qs) = (r = r')"
| "strict_eq a b = False"

text \<open>
  The function-valued members of \<^verbatim>\<open>Object.prototype\<close>, which every plain object and
  every instance inherits. They are no values of the model; they are accounted for where
  the serializer's outcome depends on them: where it reads \<^verbatim>\<open>schema[ key ]\<close> off the
  plain object that is the property schema, where it calls \<^verbatim>\<open>instance.hasOwnProperty\<close>,
  and where it reads \<^verbatim>\<open>instance.constructor\<close>. (The accessor \<^verbatim>\<open>__proto__\<close> is left
  out: an assignment to that key adds no property to the object under construction.)
\<close>

definition Object_prototype_members :: "string list" where
  "Object_prototype_members =
     [''constructor'', ''__defineGetter__'', ''__defineSetter__'', ''hasOwnProperty'',
      ''__lookupGetter__'', ''__lookupSetter__'', ''isPrototypeOf'', ''propertyIsEnumerable'',
      ''toString'', ''valueOf'', ''toLocaleString'']"

text \<open>
  \<^verbatim>\<open>instance[ key ]\<close> on the own properties of a model instance, for \<^verbatim>\<open>id\<close>, an own
  key, or a key of the relationship schema: \<^verbatim>\<open>undefined\<close> when there is none. (A
  relationship is taken not to be named like a member of \<^verbatim>\<open>Object.prototype\<close>, which
  \<^verbatim>\<open>instance[ key ]\<close> would find.)
\<close>

definition lookup :: "(string \<times> jsval) list \<Rightarrow> string \<Rightarrow> jsval" where
  "lookup props key = (case map_of props key of None \<Rightarrow> JUndefined | Some v \<Rightarrow> v)"

text \<open>Whether a value has an own property, and whether it has it or inherits it.\<close>

fun own_property :: "jsval \<Rightarrow> string \<Rightarrow> bool" where
  "own_property (JObj r c props) key = (key \<in> fst ` set props)"
| "own_property v key = False"

fun has_property :: "jsval \<Rightarrow> string \<Rightarrow> bool" where
  "has_property (JObj r c props) key = (key \<in> fst ` set props \<or> key \<in> fst ` set (inherited c))"
| "has_property v key = False"

text \<open>
  \<^verbatim>\<open>v.name\<close> for the names the serializer reads off a value that need not be a model
  instance (\<^verbatim>\<open>id\<close>, \<^verbatim>\<open>message\<close>, \<^verbatim>\<open>status\<close>, \<^verbatim>\<open>schema\<close>): a TypeError on \<^verbatim>\<open>null\<close> and
  \<^verbatim>\<open>undefined\<close>; on an object the own property, else the one its constructor's prototype
  gives it, else \<^verbatim>\<open>undefined\<close>; \<^verbatim>\<open>undefined\<close> on the other primitives and on arrays,
  which have no such property.
\<close>

fun get :: "jsval \<Rightarrow> string \<Rightarrow> js_error + jsval" where
  "get JUndefined key = Inl TypeError"
| "get JNull key = Inl TypeError"
| "get (JObj r c props) key =
     Inr (case map_of props key of
            Some v \<Rightarrow> v
          | None \<Rightarrow> lookup (inherited c) key)"
| "get v key = Inr JUndefined"

text \<open>
  The call \<^verbatim>\<open>v.hasOwnProperty(key)\<close>. The method is looked up through the value: a data
  property named \<^verbatim>\<open>hasOwnProperty\<close>, own or inherited, shadows the method of
  \<^verbatim>\<open>Object.prototype\<close>, and calling it throws a TypeError, as the call on \<^verbatim>\<open>null\<close> and
  \<^verbatim>\<open>undefined\<close> does.
\<close>

fun hasOwnProperty :: "jsval \<Rightarrow> string \<Rightarrow> js_error + bool" where
  "hasOwnProperty JUndefined key = Inl TypeError"
| "hasOwnProperty JNull key = Inl TypeError"
| "hasOwnProperty (JObj r c props) key =
     (if has_property (JObj r c props) ''hasOwnProperty'' then Inl TypeError
      else Inr (key \<in> fst ` set props))"
| "hasOwnProperty v key = Inr False"

text \<open>
  \<^verbatim>\<open>v.constructor.schema\<close>. The built-in constructors have none. An own property named
  \<^verbatim>\<open>constructor\<close> shadows the constructor: reading \<^verbatim>\<open>schema\<close> off its value throws when
  the value is \<^verbatim>\<open>null\<close> or \<^verbatim>\<open>undefined\<close>; otherwise the result is the \<^verbatim>\<open>schema\<close> property
  of a data value, which is taken to be missing or falsy: no schema. (Schemas are those
  of model constructors only; the properties of successful calls proved below are about
  instances whose constructor is not shadowed.)
\<close>

fun schema_of :: "jsval \<Rightarrow> js_error + schema option" where
  "schema_of JUndefined = Inl TypeError"
| "schema_of JNull = Inl TypeError"
| "schema_of (JObj r c props) =
     (case map_of props ''constructor'' of
        None \<Rightarrow> Inr (ctor_schema c)
      | Some v \<Rightarrow> (case get v ''schema'' of Inl e \<Rightarrow> Inl e | Inr w \<Rightarrow> Inr None))"
| "schema_of v = Inr None"

subsection \<open>Strings in template literals\<close>

fun digits :: "nat \<Rightarrow> string" where
  "digits n = (if n < 10 then [''0123456789'' ! n]
               else digits (n div 10) @ [''0123456789'' ! (n mod 10)])"

definition show_int :: "int \<Rightarrow> string" where
  "show_int i = (if i < 0 then CHR ''-'' # digits (nat (- i)) else digits (nat i))"

fun join :: "string \<Rightarrow> string list \<Rightarrow> string" where
  "join sep [] = []"
| "join sep [s] = s"
| "join sep (s # t # ss) = s @ sep @ join sep (t # ss)"

text \<open>
  \<^verbatim>\<open>`${v}`\<close>: the string a value is converted to (an object by the default
  \<^verbatim>\<open>Object.prototype.toString\<close>, an array by joining its elements).
\<close>

fun to_string :: "jsval \<Rightarrow> string" where
  "to_string JUndefined = ''undefined''"
| "to_string JNull = ''null''"
| "to_string (JBool b) = (if b then ''true'' else ''false'')"
| "to_string (JNum n) = show_int n"
| "to_string JNaN = ''NaN''"
| "to_string (JStr s) = s"
| "to_string (JArr r xs) = join '','' (map (\<lambda>x. if nullish x then [] else to_string x) xs)"
| "to_string (JObj r c props) = ''[object Object]''"

subsection \<open>The documents built\<close>

record links =
  self :: string
  related :: string

record resource_identifier =
  ident_id :: jsval
  ident_type :: string

datatype linkage = One resource_identifier | Many "resource_identifier list"

record relationship =
  rel_links :: "links option"
  rel_data :: "linkage option"

record resource =
  res_type :: string
  res_id :: jsval
  res_attributes :: "(string \<times> jsval) list"
  res_relationships :: "(string \<times> relationship) list option"

datatype primary = Single resource | Multiple "resource list"

record document =
  doc_data :: primary
  doc_included :: "resource list option"

record error_object =
  detail :: jsval
  status :: jsval

text \<open>What a serializer call returns: a JSON text, \<^verbatim>\<open>null\<close>, or the object itself.\<close>

datatype 'a returned = Text string | Null | Object 'a

subsection \<open>Arrays and objects under construction\<close>

text \<open>\<^verbatim>\<open>obj[key] = v\<close>: replaces the value of a key in place, or appends the key.\<close>

definition assign :: "(string \<times> 'v) list \<Rightarrow> string \<Rightarrow> 'v \<Rightarrow> (string \<times> 'v) list" where
  "assign obj key v = AList.update key v obj"

text \<open>\<^verbatim>\<open>xs.map(f)\<close> for a callback that may throw: the first throw ends the call.\<close>

fun mapM :: "('a \<Rightarrow> 'e + 'b) \<Rightarrow> 'a list \<Rightarrow> 'e + 'b list" where
  "mapM f [] = Inr []"
| "mapM f (x # xs) =
     (case f x of
        Inl e \<Rightarrow> Inl e
      | Inr y \<Rightarrow> (case mapM f xs of Inl e \<Rightarrow> Inl e | Inr ys \<Rightarrow> Inr (y # ys)))"

text \<open>\<^verbatim>\<open>xs.reduce(f, init)\<close> (and a \<^verbatim>\<open>forEach\<close> that updates a variable), likewise.\<close>

fun foldM :: "('b \<Rightarrow> 'a \<Rightarrow> 'e + 'b) \<Rightarrow> 'b \<Rightarrow> 'a list \<Rightarrow> 'e + 'b" where
  "foldM f acc [] = Inr acc"
| "foldM f acc (x # xs) =
     (case f acc x of Inl e \<Rightarrow> Inl e | Inr acc' \<Rightarrow> foldM f acc' xs)"

text \<open>
  A value of the \<^verbatim>\<open>included\<close> array while it is collected: a resource object or an
  array of such values. \<^verbatim>\<open>flatten\<close> flattens deeply nested arrays.
\<close>

datatype 'a nest = Leaf 'a | Arr "'a nest list"

fun flatten :: "'a nest list \<Rightarrow> 'a list" where
  "flatten [] = []"
| "flatten (Arr vs # arr) = flatten vs @ flatten arr"
| "flatten (Leaf v # arr) = v # flatten arr"

subsection \<open>buildResource\<close>

text \<open>
  \<^verbatim>\<open>schema[ key ]\<close>, where \<^verbatim>\<open>schema\<close> is the property schema: a plain object, so that a
  key it does not declare is still found when it names a member of \<^verbatim>\<open>Object.prototype\<close>.
  That member is truthy and has no \<^verbatim>\<open>public\<close> property.
\<close>

definition schema_entry :: "(string \<times> propSchema) list \<Rightarrow> string \<Rightarrow> propSchema option" where
  "schema_entry sch key =
     (case map_of sch key of
        Some keySchema \<Rightarrow> Some keySchema
      | None \<Rightarrow> if key \<in> set Object_prototype_members then Some \<lparr>public = None\<rparr> else None)"

text \<open>
  The callback of the reduce that builds \<^verbatim>\<open>attributes\<close>: a key is copied when
  \<^verbatim>\<open>schema[ key ]\<close> is truthy and its \<^verbatim>\<open>public\<close> is \<^verbatim>\<open>true\<close> or \<^verbatim>\<open>undefined\<close>.
\<close>

definition attributes_step ::
  "(string \<times> propSchema) list \<Rightarrow> (string \<times> jsval) list \<Rightarrow>
   (string \<times> jsval) list \<Rightarrow> string \<Rightarrow> (string \<times> jsval) list" where
  "attributes_step sch props obj key =
     (case schema_entry sch key of
        None \<Rightarrow> obj
      | Some keySchema \<Rightarrow>
          if public keySchema = Some True \<or> public keySchema = None
          then assign obj key (lookup props key)
          else obj)"

text \<open>
  \<^verbatim>\<open>Object.keys(instance).reduce(..., {})\<close>, with \<^verbatim>\<open>schema\<close> the \<^verbatim>\<open>properties\<close> of the
  constructor's schema: reading \<^verbatim>\<open>schema[key]\<close> throws when \<^verbatim>\<open>properties\<close> is missing.
\<close>

definition build_attributes ::
  "(string \<times> propSchema) list option \<Rightarrow> (string \<times> jsval) list \<Rightarrow>
   js_error + (string \<times> jsval) list" where
  "build_attributes sch props =
     (case sch of
        None \<Rightarrow> if props = [] then Inr [] else Inl TypeError
      | Some ps \<Rightarrow> Inr (foldl (attributes_step ps props) [] (map fst props)))"

text \<open>\<^verbatim>\<open>{ id: item.id ? item.id : item, type }\<close>\<close>

definition identifier_of :: "string \<Rightarrow> jsval \<Rightarrow> js_error + resource_identifier" where
  "identifier_of type item =
     (case get item ''id'' of
        Inl e \<Rightarrow> Inl e
      | Inr i \<Rightarrow> Inr \<lparr>ident_id = (if truthy i then i else item), ident_type = type\<rparr>)"

text \<open>
  The relationship object the reduce over \<^verbatim>\<open>Object.keys(relationshipSchema)\<close> builds for
  one key: \<^verbatim>\<open>links\<close> when \<^verbatim>\<open>instance.id\<close> is truthy, \<^verbatim>\<open>data\<close> from the nested value.
\<close>

definition build_relationship ::
  "string \<Rightarrow> (string \<times> jsval) list \<Rightarrow> (string \<times> relSchema) list \<Rightarrow> string \<Rightarrow>
   js_error + relationship" where
  "build_relationship plu props relationshipSchema key =
     (let instance_id = lookup props ''id'';
          lnk = (if truthy instance_id
                 then Some \<lparr>self = ''/'' @ plu @ ''/'' @ to_string instance_id
                                    @ ''/relationships/'' @ key,
                             related = ''/'' @ plu @ ''/'' @ to_string instance_id
                                    @ ''/'' @ key\<rparr>
                 else None);
          nested = lookup props key
      in case map_of relationshipSchema key of
           None \<Rightarrow> Inl TypeError
         | Some entry \<Rightarrow>
             (case nested of
                JArr r items \<Rightarrow>
                  (case mapM (identifier_of (rel_type entry)) items of
                     Inl e \<Rightarrow> Inl e
                   | Inr ids \<Rightarrow> Inr \<lparr>rel_links = lnk, rel_data = Some (Many ids)\<rparr>)
              | _ \<Rightarrow>
                  if truthy nested
                  then (case identifier_of (rel_type entry) nested of
                          Inl e \<Rightarrow> Inl e
                        | Inr i \<Rightarrow> Inr \<lparr>rel_links = lnk, rel_data = Some (One i)\<rparr>)
                  else Inr \<lparr>rel_links = lnk, rel_data = None\<rparr>))"

definition relationships_step ::
  "string \<Rightarrow> (string \<times> jsval) list \<Rightarrow> (string \<times> relSchema) list \<Rightarrow>
   (string \<times> relationship) list \<Rightarrow> string \<Rightarrow> js_error + (string \<times> relationship) list" where
  "relationships_step plu props relationshipSchema obj key =
     (case build_relationship plu props relationshipSchema key of
        Inl e \<Rightarrow> Inl e
      | Inr rel \<Rightarrow> Inr (assign obj key rel))"

text \<open>\<^verbatim>\<open>instance.constructor.schema.relationships || {}\<close>\<close>

definition relationship_schema :: "schema \<Rightarrow> (string \<times> relSchema) list" where
  "relationship_schema sch = (case relationships sch of None \<Rightarrow> [] | Some rs \<Rightarrow> rs)"

definition missing_id :: js_error where
  "missing_id = Error ''Expected an \"id\" property.''"

text \<open>
  \<^verbatim>\<open>if ( requireId && !instance.hasOwnProperty('id') ) { throw new Error(...); }\<close>:
  the method is called only when \<^verbatim>\<open>requireId\<close> is truthy.
\<close>

definition check_id :: "jsval \<Rightarrow> bool \<Rightarrow> js_error + unit" where
  "check_id instance requireId =
     (if requireId
      then (case hasOwnProperty instance ''id'' of
              Inl e \<Rightarrow> Inl e
            | Inr own \<Rightarrow> if own then Inr () else Inl missing_id)
      else Inr ())"

text \<open>
  \<^verbatim>\<open>buildResource(instance, requireId)\<close>: the identifier check first, then the schema
  of the constructor (a TypeError when there is none), the attributes, the relationships.
  Where the constructor has a schema it is a model constructor, and no own property
  shadows it.
\<close>

fun buildResource :: "jsval \<Rightarrow> bool \<Rightarrow> js_error + resource" where
  "buildResource (JObj r c props) requireId =
     (case check_id (JObj r c props) requireId of
        Inl e \<Rightarrow> Inl e
      | Inr checked \<Rightarrow>
          (case schema_of (JObj r c props) of
             Inl e \<Rightarrow> Inl e
           | Inr None \<Rightarrow> Inl TypeError
           | Inr (Some sch) \<Rightarrow>
               (case build_attributes (properties sch) props of
                  Inl e \<Rightarrow> Inl e
                | Inr attrs \<Rightarrow>
                    (case foldM (relationships_step (plural c) props (relationship_schema sch)) []
                            (map fst (relationship_schema sch)) of
                       Inl e \<Rightarrow> Inl e
                     | Inr rels \<Rightarrow>
                         Inr \<lparr>res_type = singular c,
                              res_id = lookup props ''id'',
                              res_attributes = attrs,
                              res_relationships = (if rels \<noteq> [] then Some rels else None)\<rparr>))))"
| "buildResource v requireId =
     (case check_id v requireId of Inl e \<Rightarrow> Inl e | Inr checked \<Rightarrow> Inl TypeError)"

subsection \<open>buildCompoundDocuments\<close>

text \<open>
  The two maps over an array-valued relationship: the compound documents of every
  element whose constructor has a schema, then the resource object of every element
  with a truthy \<^verbatim>\<open>id\<close>; \<^verbatim>\<open>undefined\<close> (\<open>None\<close>) for the other elements. A single nested
  value with a truthy \<^verbatim>\<open>id\<close> gives its resource object and is not walked further.
  \<^verbatim>\<open>included.filter(( item ) => item)\<close> drops the \<^verbatim>\<open>undefined\<close> entries.
\<close>

definition has_schema :: "jsval \<Rightarrow> js_error + bool" where
  "has_schema item =
     (if truthy item
      then (case schema_of item of Inl e \<Rightarrow> Inl e | Inr sch \<Rightarrow> Inr (sch \<noteq> None))
      else Inr False)"

definition has_id :: "jsval \<Rightarrow> bool" where
  "has_id item = (truthy item \<and> (case get item ''id'' of Inr i \<Rightarrow> truthy i | Inl e \<Rightarrow> False))"

definition resource_if_id :: "jsval \<Rightarrow> js_error + resource nest option" where
  "resource_if_id item =
     (if has_id item
      then (case buildResource item True of Inl e \<Rightarrow> Inl e | Inr res \<Rightarrow> Inr (Some (Leaf res)))
      else Inr None)"

definition filter_truthy :: "'a option list \<Rightarrow> 'a list" where
  "filter_truthy included = List.map_filter (\<lambda>item. item) included"

lemma lookup_size:
  "lookup props key = v \<Longrightarrow> v \<noteq> JUndefined \<Longrightarrow>
   size v < Suc (size_list (size_prod (\<lambda>_. 0) size) props)"
  by (induction props) (auto simp: lookup_def split: if_splits)

lemma mapM_cong [fundef_cong]:
  "xs = ys \<Longrightarrow> (\<And>x. x \<in> set ys \<Longrightarrow> f x = g x) \<Longrightarrow> mapM f xs = mapM g ys"
  by (induction ys arbitrary: xs) (auto split: sum.splits)

lemma foldM_cong [fundef_cong]:
  "xs = ys \<Longrightarrow> a = b \<Longrightarrow> (\<And>acc x. x \<in> set ys \<Longrightarrow> f acc x = g acc x) \<Longrightarrow>
   foldM f a xs = foldM g b ys"
  by (induction ys arbitrary: xs a b) (auto split: sum.splits)

function buildCompoundDocuments :: "jsval \<Rightarrow> js_error + resource list" where
  "buildCompoundDocuments (JObj r c props) =
     (case schema_of (JObj r c props) of
        Inl e \<Rightarrow> Inl e
      | Inr None \<Rightarrow> Inl TypeError
      | Inr (Some sch) \<Rightarrow>
          (case foldM
                (\<lambda>included key.
                   (let nested = lookup props key
                    in case nested of
                         JArr ra items \<Rightarrow>
                           (case mapM (\<lambda>item. case has_schema item of
                                                Inl e \<Rightarrow> Inl e
                                              | Inr True \<Rightarrow>
                                                  (case buildCompoundDocuments item of
                                                     Inl e \<Rightarrow> Inl e
                                                   | Inr docs \<Rightarrow> Inr (Some (Arr (map Leaf docs))))
                                              | Inr False \<Rightarrow> Inr None) items of
                              Inl e \<Rightarrow> Inl e
                            | Inr deeper \<Rightarrow>
                                (case mapM resource_if_id items of
                                   Inl e \<Rightarrow> Inl e
                                 | Inr resources \<Rightarrow> Inr (included @ deeper @ resources)))
                       | _ \<Rightarrow>
                           (case resource_if_id nested of
                              Inl e \<Rightarrow> Inl e
                            | Inr None \<Rightarrow> Inr included
                            | Inr (Some res) \<Rightarrow> Inr (included @ [Some res]))))
                [] (map fst (relationship_schema sch)) of
             Inl e \<Rightarrow> Inl e
           | Inr included \<Rightarrow> Inr (flatten (filter_truthy included))))"
| "buildCompoundDocuments JUndefined = Inl TypeError"
| "buildCompoundDocuments JNull = Inl TypeError"
| "buildCompoundDocuments (JBool b) = Inl TypeError"
| "buildCompoundDocuments (JNum n) = Inl TypeError"
| "buildCompoundDocuments JNaN = Inl TypeError"
| "buildCompoundDocuments (JStr s) = Inl TypeError"
| "buildCompoundDocuments (JArr r xs) = Inl TypeError"
  by pat_completeness auto
termination
proof (relation "measure size")
  show "wf (measure size)" by simp
next
  fix r c props sch key nested ra items item
  assume "nested = lookup props key" "nested = JArr ra items" "item \<in> set items"
  then have "lookup props key = JArr ra items" by simp
  then have "size (JArr ra items) < Suc (size_list (size_prod (\<lambda>_. 0) size) props)"
    by (rule lookup_size) simp
  moreover have "size item < size (JArr ra items)"
    using \<open>item \<in> set items\<close> by (induction items) auto
  ultimately show "(item, JObj r c props) \<in> measure size" by simp
qed

subsection \<open>toJSON\<close>

text \<open>
  \<^verbatim>\<open>JSON.stringify\<close> is the language's own: it gives the text \<^verbatim>\<open>null\<close> for
  \<^verbatim>\<open>null\<close>; the text it gives for an object is a parameter of the model.
\<close>

definition JSON_stringify :: "('a \<Rightarrow> string) \<Rightarrow> 'a option \<Rightarrow> string" where
  "JSON_stringify render v = (case v of None \<Rightarrow> ''null'' | Some obj \<Rightarrow> render obj)"

text \<open>\<^verbatim>\<open>doc.type === item.type && doc.id === item.id\<close>\<close>

definition same_document :: "resource \<Rightarrow> resource \<Rightarrow> bool" where
  "same_document doc item = (res_type doc = res_type item \<and> strict_eq (res_id doc) (res_id item))"

text \<open>The reduce that removes duplicate documents from the array of includes.\<close>

definition dedupe_step :: "resource list \<Rightarrow> resource \<Rightarrow> resource list" where
  "dedupe_step arr item = (if \<not> list_ex (\<lambda>doc. same_document doc item) arr then arr @ [item] else arr)"

definition dedupe :: "resource list \<Rightarrow> resource list" where
  "dedupe included = foldl dedupe_step [] included"

text \<open>
  \<^verbatim>\<open>instance.map(buildResource)\<close>: \<^verbatim>\<open>map\<close> calls its callback with the element and its
  index (and the array), so the index arrives as \<^verbatim>\<open>requireId\<close>.
\<close>

definition map_buildResource :: "jsval list \<Rightarrow> js_error + resource list" where
  "map_buildResource items =
     mapM (\<lambda>(item, index). buildResource item (truthy (JNum (int index))))
       (zip items [0..<length items])"

text \<open>
  \<^verbatim>\<open>toJSON(instance, { stringify, requireId })\<close>. An \<^verbatim>\<open>undefined\<close> instance takes the
  default \<^verbatim>\<open>null\<close>; the two options arrive as booleans.
\<close>

definition toJSON ::
  "(document \<Rightarrow> string) \<Rightarrow> jsval \<Rightarrow> bool \<Rightarrow> bool \<Rightarrow> js_error + document returned" where
  "toJSON render instance stringify requireId =
     (if \<not> truthy instance
      then Inr (if stringify then Text (JSON_stringify render None) else Null)
      else
        (case (case instance of
                 JArr r items \<Rightarrow>
                   (case map_buildResource items of
                      Inl e \<Rightarrow> Inl e
                    | Inr resources \<Rightarrow>
                        (case mapM buildCompoundDocuments items of
                           Inl e \<Rightarrow> Inl e
                         | Inr docs \<Rightarrow>
                             Inr (Multiple resources, flatten (map (\<lambda>d. Arr (map Leaf d)) docs))))
               | _ \<Rightarrow>
                   (case buildResource instance requireId of
                      Inl e \<Rightarrow> Inl e
                    | Inr res \<Rightarrow>
                        (case buildCompoundDocuments instance of
                           Inl e \<Rightarrow> Inl e
                         | Inr docs \<Rightarrow> Inr (Single res, docs)))) of
           Inl e \<Rightarrow> Inl e
         | Inr (dat, included) \<Rightarrow>
             (let doc = \<lparr>doc_data = dat,
                         doc_included = (if included \<noteq> [] then Some (dedupe included) else None)\<rparr>
              in Inr (if stringify then Text (JSON_stringify render (Some doc)) else Object doc))))"

subsection \<open>errorsToJSON\<close>

definition error_object_of :: "jsval \<Rightarrow> js_error + error_object" where
  "error_object_of error =
     (case get error ''message'' of
        Inl e \<Rightarrow> Inl e
      | Inr m \<Rightarrow> (case get error ''status'' of
                    Inl e \<Rightarrow> Inl e
                  | Inr s \<Rightarrow> Inr \<lparr>detail = m, status = s\<rparr>))"

text \<open>\<^verbatim>\<open>if ( !Array.isArray(errors) ) { errors = [ errors ]; }\<close>\<close>

definition error_values :: "jsval \<Rightarrow> jsval list" where
  "error_values errors = (case errors of JArr r es \<Rightarrow> es | _ \<Rightarrow> [errors])"

text \<open>The response object \<^verbatim>\<open>{ errors }\<close> is its one member, the array of error objects.\<close>

definition errorsToJSON ::
  "(error_object list \<Rightarrow> string) \<Rightarrow> jsval \<Rightarrow> bool \<Rightarrow> js_error + error_object list returned" where
  "errorsToJSON render errors stringify =
     (case mapM error_object_of (error_values errors) of
        Inl e \<Rightarrow> Inl e
      | Inr response \<Rightarrow>
          Inr (if stringify then Text (JSON_stringify render (Some response))
               else Object response))"

subsection \<open>The models of the test suite\<close>

text \<open>
  The three models the tests create with \<^verbatim>\<open>kudu.createModel\<close>: \<^verbatim>\<open>test\<close> with a public
  and a private property and the relationships \<^verbatim>\<open>children\<close> and \<^verbatim>\<open>child\<close>, \<^verbatim>\<open>child\<close>
  with the relationship \<^verbatim>\<open>deep\<close>, and \<^verbatim>\<open>single\<close> with no relationship.
\<close>

definition Model :: "jsval ctor" where
  "Model = Constructor ''test'' ''tests''
     \<lparr>properties = Some [(''name'', \<lparr>public = None\<rparr>), (''private'', \<lparr>public = Some False\<rparr>)],
      relationships = Some [(''children'', \<lparr>rel_type = ''child'', hasMany = Some True\<rparr>),
                            (''child'', \<lparr>rel_type = ''single'', hasMany = None\<rparr>)]\<rparr>"

definition Child :: "jsval ctor" where
  "Child = Constructor ''child'' ''childs''
     \<lparr>properties = Some [(''name'', \<lparr>public = None\<rparr>)],
      relationships = Some [(''deep'', \<lparr>rel_type = ''single'', hasMany = None\<rparr>)]\<rparr>"

definition SingleChild :: "jsval ctor" where
  "SingleChild = Constructor ''single'' ''singles''
     \<lparr>properties = Some [(''name'', \<lparr>public = None\<rparr>)], relationships = None\<rparr>"

subsection \<open>Notions of the specification\<close>

text \<open>
  A property is serialized when the property schema declares it and its \<^verbatim>\<open>public\<close> flag
  is \<^verbatim>\<open>true\<close> or unset.
\<close>

definition serialized_property :: "schema \<Rightarrow> string \<Rightarrow> bool" where
  "serialized_property sch key =
     (case properties sch of
        None \<Rightarrow> False
      | Some ps \<Rightarrow>
          (case map_of ps key of
             None \<Rightarrow> False
           | Some entry \<Rightarrow> public entry = Some True \<or> public entry = None))"

text \<open>
  A key the property schema does not declare and that names a function-valued member of
  \<^verbatim>\<open>Object.prototype\<close>.
\<close>

definition undeclared_member :: "schema \<Rightarrow> string \<Rightarrow> bool" where
  "undeclared_member sch key =
     (case properties sch of
        None \<Rightarrow> False
      | Some ps \<Rightarrow> map_of ps key = None \<and> key \<in> set Object_prototype_members)"

text \<open>
  An instance that \<^verbatim>\<open>buildResource\<close> serializes when its identifier is not missing: an
  object with no own property named \<^verbatim>\<open>hasOwnProperty\<close> or \<^verbatim>\<open>constructor\<close>, whose
  constructor has a schema with a property schema, and whose declared relationships hold
  no array with an element that is \<^verbatim>\<open>null\<close> or \<^verbatim>\<open>undefined\<close>.
\<close>

fun serializable :: "jsval \<Rightarrow> bool" where
  "serializable (JObj r c props) =
     (''hasOwnProperty'' \<notin> fst ` set props \<and> ''constructor'' \<notin> fst ` set props \<and>
      (case ctor_schema c of
         None \<Rightarrow> False
       | Some sch \<Rightarrow>
           properties sch \<noteq> None \<and>
           list_all
             (\<lambda>key. case lookup props key of
                      JArr ra items \<Rightarrow> list_all (\<lambda>item. \<not> nullish item) items
                    | _ \<Rightarrow> True)
             (map fst (relationship_schema sch))))"
| "serializable v = False"


text \<open>
  An entry of a sequence of resource objects is a first occurrence when no entry before
  it has its type and identifier.
\<close>

definition first_occurrence :: "resource list \<Rightarrow> nat \<Rightarrow> bool" where
  "first_occurrence xs i = (\<forall>j<i. \<not> same_document (xs ! j) (xs ! i))"

text \<open>The compound documents \<^verbatim>\<open>toJSON\<close> collects for its argument, before deduplication.\<close>

definition collected :: "jsval \<Rightarrow> js_error + resource list" where
  "collected instance =
     (case instance of
        JArr r items \<Rightarrow>
          (case mapM buildCompoundDocuments items of Inl e \<Rightarrow> Inl e | Inr docs \<Rightarrow> Inr (concat docs))
      | _ \<Rightarrow> buildCompoundDocuments instance)"

subsection \<open>Example instances\<close>

text \<open>
  The constructors \<^verbatim>\<open>Object\<close> and \<^verbatim>\<open>Error\<close>: \<^verbatim>\<open>Error.prototype\<close> has the data
  properties \<^verbatim>\<open>name\<close> and \<^verbatim>\<open>message\<close>, the empty string.
\<close>

definition Object_ctor :: "jsval ctor" where
  "Object_ctor = Builtin []"

definition Error_ctor :: "jsval ctor" where
  "Error_ctor = Builtin [(''name'', JStr ''Error''), (''message'', JStr [])]"

text \<open>
  \<^verbatim>\<open>new Model({ name: 'test', id: '1', private: true, excluded: true })\<close>, the instance
  of the two tests on excluded properties.
\<close>

definition ex_private :: jsval where
  "ex_private = JObj 1 Model [(''name'', JStr ''test''), (''id'', JStr ''1''),
                               (''private'', JBool True), (''excluded'', JBool True)]"


text \<open>
  \<^verbatim>\<open>new Model({ id: '1', children: [ '2', new Child({ id: '3' }) ], child: '4' })\<close>:
  identifiers and an instance as relationship values.
\<close>

definition ex_identifiers :: jsval where
  "ex_identifiers = JObj 1 Model [(''id'', JStr ''1''),
     (''children'', JArr 2 [JStr ''2'', JObj 3 Child [(''id'', JStr ''3'')]]),
     (''child'', JStr ''4'')]"

text \<open>
  Error-like values: \<^verbatim>\<open>{ status: 500 }\<close>, with no \<^verbatim>\<open>message\<close>; \<^verbatim>\<open>new Error()\<close>, whose
  \<^verbatim>\<open>message\<close> is the inherited empty string; \<^verbatim>\<open>new Error('test')\<close>, as in the tests.
\<close>

definition ex_no_message :: jsval where
  "ex_no_message = JObj 1 Object_ctor [(''status'', JNum 500)]"

definition ex_new_error :: jsval where
  "ex_new_error = JObj 2 Error_ctor []"

definition ex_error_test :: jsval where
  "ex_error_test = JObj 3 Error_ctor [(''message'', JStr ''test'')]"

text \<open>
  \<^verbatim>\<open>new Model({ name: 'test', id: '1', children: [ new Child({ id: '2', name: 'child1' }),
  new Child({ id: '2', name: 'child2' }) ] })\<close>: two children with one type and identifier,
  as in the test on duplicate compound documents, here with different names.
\<close>

definition ex_duplicates :: jsval where
  "ex_duplicates = JObj 1 Model [(''name'', JStr ''test''), (''id'', JStr ''1''),
     (''children'', JArr 2 [JObj 3 Child [(''id'', JStr ''2''), (''name'', JStr ''child1'')],
                            JObj 4 Child [(''id'', JStr ''2''), (''name'', JStr ''child2'')]])]"

text \<open>
  \<^verbatim>\<open>[ new Model({ name: 'test' }) ]\<close>, and an array whose second element has no
  \<^verbatim>\<open>id\<close>.
\<close>

definition ex_array_no_id :: jsval where
  "ex_array_no_id = JArr 1 [JObj 2 Model [(''name'', JStr ''test'')]]"

definition ex_array_no_id_second :: jsval where
  "ex_array_no_id_second =
     JArr 1 [JObj 2 Model [(''name'', JStr ''1''), (''id'', JStr ''1'')],
             JObj 3 Model [(''name'', JStr ''test'')]]"

text \<open>
  A model \<^verbatim>\<open>parent\<close> that has one \<^verbatim>\<open>child\<close> and many \<^verbatim>\<open>children\<close>, and a child with a
  \<^verbatim>\<open>deep\<close> instance, related to a parent once as its \<^verbatim>\<open>child\<close> and once as one of its
  \<^verbatim>\<open>children\<close>.
\<close>

definition Parent :: "jsval ctor" where
  "Parent = Constructor ''parent'' ''parents''
     \<lparr>properties = Some [(''name'', \<lparr>public = None\<rparr>)],
      relationships = Some [(''child'', \<lparr>rel_type = ''child'', hasMany = None\<rparr>),
                            (''children'', \<lparr>rel_type = ''child'', hasMany = Some True\<rparr>)]\<rparr>"

definition ex_child :: jsval where
  "ex_child = JObj 2 Child [(''id'', JStr ''2''),
                (''deep'', JObj 3 SingleChild [(''id'', JStr ''3''), (''name'', JStr ''deep'')])]"

definition ex_single_chain :: jsval where
  "ex_single_chain = JObj 1 Parent [(''id'', JStr ''1''), (''child'', ex_child)]"

definition ex_array_chain :: jsval where
  "ex_array_chain = JObj 1 Parent [(''id'', JStr ''1''), (''children'', JArr 4 [ex_child])]"

text \<open>Resource objects of which the third has the type and identifier of the first.\<close>

definition ex_included :: "resource list" where
  "ex_included =
     [\<lparr>res_type = ''child'', res_id = JStr ''2'', res_attributes = [(''name'', JStr ''child1'')],
       res_relationships = None\<rparr>,
      \<lparr>res_type = ''single'', res_id = JStr ''2'', res_attributes = [],
       res_relationships = None\<rparr>,
      \<lparr>res_type = ''child'', res_id = JStr ''2'', res_attributes = [(''name'', JStr ''child2'')],
       res_relationships = None\<rparr>]"



text \<open>\<^verbatim>\<open>new Model({ name: 'test', id: '' })\<close>: an \<^verbatim>\<open>id\<close> that is there and falsy.\<close>

definition ex_empty_id :: jsval where
  "ex_empty_id = JObj 1 Model [(''name'', JStr ''test''), (''id'', JStr [])]"

text \<open>
  Instances with own properties named like members of \<^verbatim>\<open>Object.prototype\<close>:
  \<^verbatim>\<open>new Model({ name: 'test', id: '1', toString: 'x' })\<close>,
  \<^verbatim>\<open>new Model({ name: 'test', hasOwnProperty: 'x' })\<close> and
  \<^verbatim>\<open>new Model({ id: '', hasOwnProperty: 'x' })\<close>.
\<close>

definition ex_toString :: jsval where
  "ex_toString = JObj 1 Model [(''name'', JStr ''test''), (''id'', JStr ''1''),
                                (''toString'', JStr ''x'')]"


definition ex_shadowed_empty_id :: jsval where
  "ex_shadowed_empty_id = JObj 1 Model [(''id'', JStr []), (''hasOwnProperty'', JStr ''x'')]"


definition ex_null_child_empty_id :: jsval where
  "ex_null_child_empty_id = JObj 1 Model [(''id'', JStr []), (''children'', JArr 2 [JNull])]"

section \<open>Properties\<close>

subsection \<open>Calls that may throw\<close>

lemma mapM_Inr_iff:
  "mapM f xs = Inr ys \<longleftrightarrow> length ys = length xs \<and> (\<forall>i<length xs. f (xs ! i) = Inr (ys ! i))"
proof (induction xs arbitrary: ys)
  case Nil
  then show ?case by auto
next
  case (Cons x xs)
  show ?case
  proof (cases ys)
    case Nil
    then show ?thesis by (auto split: sum.splits)
  next
    case ys: (Cons z zs)
    have "mapM f (x # xs) = Inr (z # zs) \<longleftrightarrow> f x = Inr z \<and> mapM f xs = Inr zs"
      by (auto split: sum.splits)
    also have "\<dots> \<longleftrightarrow> f x = Inr z \<and> length zs = length xs
        \<and> (\<forall>i<length xs. f (xs ! i) = Inr (zs ! i))"
      using Cons.IH [of zs] by simp
    also have "\<dots> \<longleftrightarrow> length (z # zs) = length (x # xs)
        \<and> (\<forall>i<length (x # xs). f ((x # xs) ! i) = Inr ((z # zs) ! i))"
      by (auto simp: All_less_Suc2)
    finally show ?thesis using ys by simp
  qed
qed

lemma mapM_total:
  "(\<And>x. x \<in> set xs \<Longrightarrow> \<exists>y. f x = Inr y) \<Longrightarrow> \<exists>ys. mapM f xs = Inr ys"
proof (induction xs)
  case Nil
  then show ?case by simp
next
  case (Cons x xs)
  then obtain y ys where "f x = Inr y" "mapM f xs = Inr ys" by (meson list.set_intros)
  then show ?case by simp
qed

lemma foldM_total:
  "(\<And>acc x. x \<in> set xs \<Longrightarrow> \<exists>acc'. f acc x = Inr acc') \<Longrightarrow> \<exists>r. foldM f a xs = Inr r"
proof (induction xs arbitrary: a)
  case Nil
  then show ?case by simp
next
  case (Cons x xs)
  then obtain a' where "f a x = Inr a'" by (meson list.set_intros)
  moreover have "\<exists>r. foldM f a' xs = Inr r" using Cons by simp
  ultimately show ?case by auto
qed

subsection \<open>The null document\<close>

text \<open>
  C9: \<^verbatim>\<open>toJSON\<close> returns the null document for every falsy instance argument, not only
  for \<^verbatim>\<open>null\<close> or a missing argument: for \<^verbatim>\<open>0\<close>, the empty string or \<^verbatim>\<open>false\<close> the result
  is the text \<^verbatim>\<open>null\<close> when \<^verbatim>\<open>stringify\<close> is set and the value \<^verbatim>\<open>null\<close> when it is not,
  whatever \<^verbatim>\<open>requireId\<close> is; no resource is built.
\<close>

theorem toJSON_falsy:
  "\<not> truthy instance \<Longrightarrow>
   toJSON render instance stringify requireId = Inr (if stringify then Text ''null'' else Null)"
  by (simp add: toJSON_def JSON_stringify_def)

theorem toJSON_falsy_witness:
  "toJSON (\<lambda>d. []) (JNum 0) True True = Inr (Text ''null'')
   \<and> toJSON (\<lambda>d. []) (JStr []) True True = Inr (Text ''null'')
   \<and> toJSON (\<lambda>d. []) (JBool False) True True = Inr (Text ''null'')
   \<and> toJSON (\<lambda>d. []) (JNum 0) False True = Inr Null
   \<and> toJSON (\<lambda>d. []) (JStr []) False True = Inr Null
   \<and> toJSON (\<lambda>d. []) (JBool False) False True = Inr Null"
  using toJSON_falsy [of "JNum 0" "\<lambda>d. []" True True]
    toJSON_falsy [of "JStr []" "\<lambda>d. []" True True]
    toJSON_falsy [of "JBool False" "\<lambda>d. []" True True]
    toJSON_falsy [of "JNum 0" "\<lambda>d. []" False True]
    toJSON_falsy [of "JStr []" "\<lambda>d. []" False True]
    toJSON_falsy [of "JBool False" "\<lambda>d. []" False True]
  by simp

subsection \<open>Objects under construction\<close>

lemma assign_map_of: "map_of (assign obj key v) = (map_of obj)(key \<mapsto> v)"
  by (simp add: assign_def update_conv')

lemma assign_keys: "fst ` set (assign obj key v) = insert key (fst ` set obj)"
  by (simp add: assign_def dom_update)

lemma attributes_fold_map_of:
  "map_of (foldl (attributes_step ps props) obj keys) key =
     (if key \<in> set keys \<and> (\<exists>entry. schema_entry ps key = Some entry \<and> (public entry = Some True \<or> public entry = None))
      then Some (lookup props key) else map_of obj key)"
proof (induction keys arbitrary: obj)
  case Nil
  then show ?case by simp
next
  case (Cons k keys)
  show ?case
    unfolding foldl_Cons Cons.IH
    by (auto simp: attributes_step_def assign_map_of split: option.splits)
qed

lemma schema_entry_serialized:
  assumes "properties sch = Some ps"
  shows "(\<exists>entry. schema_entry ps key = Some entry \<and> (public entry = Some True \<or> public entry = None))
     \<longleftrightarrow> serialized_property sch key \<or> undeclared_member sch key"
  using assms
  by (auto simp: schema_entry_def serialized_property_def undeclared_member_def
      split: option.splits if_splits)

lemma build_attributes_keys:
  assumes "build_attributes (properties sch) props = Inr attrs"
  shows "map_of attrs key =
     (if key \<in> fst ` set props \<and> (serialized_property sch key \<or> undeclared_member sch key)
      then Some (lookup props key) else None)"
proof (cases "properties sch")
  case None
  then show ?thesis using assms
    by (auto simp: build_attributes_def serialized_property_def undeclared_member_def
        split: if_splits)
next
  case (Some ps)
  then have "attrs = foldl (attributes_step ps props) [] (map fst props)"
    using assms by (simp add: build_attributes_def)
  then have "map_of attrs key =
     (if key \<in> set (map fst props) \<and> (\<exists>entry. schema_entry ps key = Some entry
           \<and> (public entry = Some True \<or> public entry = None))
      then Some (lookup props key) else None)"
    by (simp only: attributes_fold_map_of map_of.simps)
  then show ?thesis
    unfolding schema_entry_serialized [OF Some] by simp
qed

lemma foldM_relationships_Cons:
  assumes "foldM (relationships_step plu props rs) obj (k # keys) = Inr rels"
  obtains rel where "build_relationship plu props rs k = Inr rel"
    "foldM (relationships_step plu props rs) (assign obj k rel) keys = Inr rels"
proof -
  from assms obtain obj' where step: "relationships_step plu props rs obj k = Inr obj'"
    and rest: "foldM (relationships_step plu props rs) obj' keys = Inr rels"
    by (auto split: sum.splits)
  from step obtain rel where "build_relationship plu props rs k = Inr rel" "obj' = assign obj k rel"
    by (auto simp: relationships_step_def split: sum.splits)
  with rest that show thesis by simp
qed

lemma foldM_relationships_other:
  "foldM (relationships_step plu props rs) obj keys = Inr rels \<Longrightarrow> key \<notin> set keys \<Longrightarrow>
   map_of rels key = map_of obj key"
proof (induction keys arbitrary: obj)
  case Nil
  then show ?case by simp
next
  case (Cons k keys)
  from Cons.prems(1) obtain rel where
    rest: "foldM (relationships_step plu props rs) (assign obj k rel) keys = Inr rels"
    by (rule foldM_relationships_Cons)
  then show ?case using Cons.IH [OF rest] Cons.prems(2) by (simp add: assign_map_of)
qed

lemma foldM_relationships:
  "foldM (relationships_step plu props rs) obj keys = Inr rels \<Longrightarrow> key \<in> set keys \<Longrightarrow>
   \<exists>rel. build_relationship plu props rs key = Inr rel \<and> map_of rels key = Some rel"
proof (induction keys arbitrary: obj)
  case Nil
  then show ?case by simp
next
  case (Cons k keys)
  from Cons.prems(1) obtain rel where rel: "build_relationship plu props rs k = Inr rel"
    and rest: "foldM (relationships_step plu props rs) (assign obj k rel) keys = Inr rels"
    by (rule foldM_relationships_Cons)
  show ?case
  proof (cases "key \<in> set keys")
    case True
    then show ?thesis using Cons.IH [OF rest] by simp
  next
    case False
    then have "key = k" using Cons.prems(2) by simp
    moreover have "map_of rels key = map_of (assign obj k rel) key"
      using foldM_relationships_other [OF rest False] .
    ultimately show ?thesis using rel by (simp add: assign_map_of)
  qed
qed

lemma foldM_relationships_nonempty:
  "foldM (relationships_step plu props rs) obj keys = Inr rels \<Longrightarrow> keys \<noteq> [] \<Longrightarrow> rels \<noteq> []"
  using foldM_relationships [of plu props rs obj keys rels "hd keys"] by (cases keys) auto

lemma foldM_relationships_keys:
  "foldM (relationships_step plu props rs) obj keys = Inr rels \<Longrightarrow>
   fst ` set rels = fst ` set obj \<union> set keys"
proof (induction keys arbitrary: obj)
  case Nil
  then show ?case by simp
next
  case (Cons k keys)
  from Cons.prems(1) obtain rel where
    rest: "foldM (relationships_step plu props rs) (assign obj k rel) keys = Inr rels"
    by (rule foldM_relationships_Cons)
  show ?case using Cons.IH [OF rest] by (auto simp: assign_keys)
qed

subsection \<open>What a successful buildResource call has done\<close>

lemma schema_of_Some:
  assumes "schema_of v = Inr (Some sch)"
  obtains r c props where "v = JObj r c props" "ctor_schema c = Some sch"
    "''constructor'' \<notin> fst ` set props"
proof (cases v)
  case (JObj r c props)
  with assms have "map_of props ''constructor'' = None \<and> ctor_schema c = Some sch"
    by (auto split: option.splits sum.splits)
  then show thesis using that JObj by (auto simp: map_of_eq_None_iff)
qed (insert assms, simp_all)

lemma schema_of_object:
  "''constructor'' \<notin> fst ` set props \<Longrightarrow> schema_of (JObj r c props) = Inr (ctor_schema c)"
  by (simp add: map_of_eq_None_iff [THEN iffD2])

lemma buildResource_Inr:
  assumes "buildResource instance requireId = Inr res"
  obtains r c props sch attrs rels where
    "instance = JObj r c props" "ctor_schema c = Some sch"
    "''constructor'' \<notin> fst ` set props"
    "check_id instance requireId = Inr ()"
    "build_attributes (properties sch) props = Inr attrs"
    "foldM (relationships_step (plural c) props (relationship_schema sch)) []
       (map fst (relationship_schema sch)) = Inr rels"
    "res = \<lparr>res_type = singular c, res_id = lookup props ''id'', res_attributes = attrs,
            res_relationships = (if rels \<noteq> [] then Some rels else None)\<rparr>"
proof (cases "instance")
  case (JObj r c props)
  have req: "check_id instance requireId = Inr ()"
    using assms JObj by (cases "check_id instance requireId") auto
  with assms JObj obtain sch where so: "schema_of (JObj r c props) = Inr (Some sch)"
    by (cases "schema_of (JObj r c props)") (auto split: option.splits)
  from so obtain sch: "ctor_schema c = Some sch" and noc: "''constructor'' \<notin> fst ` set props"
    by (rule schema_of_Some) simp
  have body: "(case build_attributes (properties sch) props of
             Inl e \<Rightarrow> Inl e
           | Inr attrs \<Rightarrow>
               (case foldM (relationships_step (plural c) props (relationship_schema sch)) []
                          (map fst (relationship_schema sch)) of
                     Inl e \<Rightarrow> Inl e
                   | Inr rels \<Rightarrow>
                       Inr \<lparr>res_type = singular c,
                            res_id = lookup props ''id'',
                            res_attributes = attrs,
                            res_relationships = (if rels \<noteq> [] then Some rels else None)\<rparr>)) = Inr res"
    using assms req so unfolding JObj buildResource.simps by simp
  then obtain attrs where attrs: "build_attributes (properties sch) props = Inr attrs"
    by (cases "build_attributes (properties sch) props") auto
  with body obtain rels where rels: "foldM (relationships_step (plural c) props (relationship_schema sch)) []
       (map fst (relationship_schema sch)) = Inr rels"
    by (cases "foldM (relationships_step (plural c) props (relationship_schema sch)) []
       (map fst (relationship_schema sch))") auto
  with body attrs have "res = \<lparr>res_type = singular c, res_id = lookup props ''id'', res_attributes = attrs,
            res_relationships = (if rels \<noteq> [] then Some rels else None)\<rparr>"
    by simp
  with JObj sch noc req attrs rels that show thesis by blast
qed (insert assms, auto split: sum.splits)

lemma buildResource_relationship:
  assumes "buildResource (JObj r c props) requireId = Inr res"
    and "ctor_schema c = Some sch" and "key \<in> fst ` set (relationship_schema sch)"
  obtains rels rel where "res_relationships res = Some rels" "map_of rels key = Some rel"
    "build_relationship (plural c) props (relationship_schema sch) key = Inr rel"
proof -
  from assms(1) obtain r' c' props' sch' attrs rels where
    obj: "JObj r c props = JObj r' c' props'" and sch': "ctor_schema c' = Some sch'"
    and rels: "foldM (relationships_step (plural c') props' (relationship_schema sch')) []
       (map fst (relationship_schema sch')) = Inr rels"
    and res: "res = \<lparr>res_type = singular c', res_id = lookup props' ''id'', res_attributes = attrs,
            res_relationships = (if rels \<noteq> [] then Some rels else None)\<rparr>"
    by (rule buildResource_Inr)
  from obj sch' assms(2) have eq: "c' = c" "props' = props" "sch' = sch" by simp_all
  have key: "key \<in> set (map fst (relationship_schema sch))" using assms(3) by simp
  then have "map fst (relationship_schema sch) \<noteq> []" by auto
  then have "rels \<noteq> []" using rels eq by (auto dest: foldM_relationships_nonempty)
  then have "res_relationships res = Some rels" using res by simp
  moreover obtain rel where "build_relationship (plural c) props (relationship_schema sch) key = Inr rel"
    "map_of rels key = Some rel"
    using foldM_relationships [OF rels [unfolded eq] key] by blast
  ultimately show thesis using that by blast
qed

lemma identifier_of_Inr:
  assumes "identifier_of t item = Inr i"
  shows "ident_type i = t" and "item = JStr s \<Longrightarrow> ident_id i = JStr s"
    and "get item ''id'' = Inr v \<Longrightarrow> truthy v \<Longrightarrow> ident_id i = v"
  using assms by (auto simp: identifier_of_def split: sum.splits if_splits)

lemma build_relationship_links:
  assumes "build_relationship plu props rs key = Inr rel"
  shows "rel_links rel =
     (if truthy (lookup props ''id'')
      then Some \<lparr>self = ''/'' @ plu @ ''/'' @ to_string (lookup props ''id'') @ ''/relationships/'' @ key,
                 related = ''/'' @ plu @ ''/'' @ to_string (lookup props ''id'') @ ''/'' @ key\<rparr>
      else None)"
  using assms
  by (cases "lookup props key")
     (auto simp: build_relationship_def Let_def split: option.splits sum.splits if_splits)


lemma build_relationship_array:
  assumes "build_relationship plu props rs key = Inr rel" and "map_of rs key = Some entry"
    and "lookup props key = JArr ra items"
  obtains ids where "rel_data rel = Some (Many ids)"
    "mapM (identifier_of (rel_type entry)) items = Inr ids"
  using assms
  by (auto simp: build_relationship_def Let_def split: option.splits sum.splits if_splits)

lemma build_relationship_single:
  assumes "build_relationship plu props rs key = Inr rel" and "map_of rs key = Some entry"
    and "truthy (lookup props key)" and "\<forall>ra items. lookup props key \<noteq> JArr ra items"
  obtains i where "rel_data rel = Some (One i)"
    "identifier_of (rel_type entry) (lookup props key) = Inr i"
  using assms
  by (cases "lookup props key")
     (auto simp: build_relationship_def Let_def split: option.splits sum.splits if_splits)


subsection \<open>Attributes\<close>

lemma ex_private_resource:
  "buildResource ex_private True =
     Inr \<lparr>res_type = ''test'', res_id = JStr ''1'',
          res_attributes = [(''name'', JStr ''test'')],
          res_relationships = Some
            [(''children'', \<lparr>rel_links = Some \<lparr>self = ''/tests/1/relationships/children'',
                                                related = ''/tests/1/children''\<rparr>,
                             rel_data = None\<rparr>),
             (''child'', \<lparr>rel_links = Some \<lparr>self = ''/tests/1/relationships/child'',
                                             related = ''/tests/1/child''\<rparr>,
                          rel_data = None\<rparr>)]\<rparr>"
  by (simp add: ex_private_def Model_def check_id_def build_attributes_def attributes_step_def schema_entry_def
      Object_prototype_members_def assign_def
      lookup_def relationship_schema_def relationships_step_def build_relationship_def)


text \<open>
  What \<^verbatim>\<open>attributes\<close> holds after a successful call: the own properties that the
  property schema declares with a \<^verbatim>\<open>public\<close> flag that is \<^verbatim>\<open>true\<close> or unset, and the
  own properties that it does not declare and that are named like a function-valued
  member of \<^verbatim>\<open>Object.prototype\<close>.
\<close>

lemma buildResource_attribute_keys:
  assumes "buildResource (JObj r c props) requireId = Inr res"
  shows "\<exists>sch. ctor_schema c = Some sch
    \<and> (\<forall>key. key \<in> fst ` set (res_attributes res)
           \<longleftrightarrow> key \<in> fst ` set props
               \<and> (serialized_property sch key \<or> undeclared_member sch key))
    \<and> (\<forall>key \<in> fst ` set (res_attributes res).
           map_of (res_attributes res) key = Some (lookup props key))"
proof -
  from assms obtain r' c' props' sch attrs rels where
    obj: "JObj r c props = JObj r' c' props'" and sch: "ctor_schema c' = Some sch"
    and attrs: "build_attributes (properties sch) props' = Inr attrs"
    and res: "res = \<lparr>res_type = singular c', res_id = lookup props' ''id'', res_attributes = attrs,
            res_relationships = (if rels \<noteq> [] then Some rels else None)\<rparr>"
    by (rule buildResource_Inr)
  have m: "map_of attrs key =
     (if key \<in> fst ` set props \<and> (serialized_property sch key \<or> undeclared_member sch key)
      then Some (lookup props key) else None)"
    for key
    using build_attributes_keys [OF attrs] obj by simp
  have k: "key \<in> fst ` set attrs \<longleftrightarrow>
      key \<in> fst ` set props \<and> (serialized_property sch key \<or> undeclared_member sch key)" for key
    using m [of key] map_of_eq_None_iff [of attrs key] by (auto split: if_splits)
  have "res_attributes res = attrs" using res by simp
  then show ?thesis using sch obj m k by auto
qed

lemma ex_toString_resource:
  "buildResource ex_toString True =
     Inr \<lparr>res_type = ''test'', res_id = JStr ''1'',
          res_attributes = [(''name'', JStr ''test''), (''toString'', JStr ''x'')],
          res_relationships = Some
            [(''children'', \<lparr>rel_links = Some \<lparr>self = ''/tests/1/relationships/children'',
                                                related = ''/tests/1/children''\<rparr>,
                             rel_data = None\<rparr>),
             (''child'', \<lparr>rel_links = Some \<lparr>self = ''/tests/1/relationships/child'',
                                             related = ''/tests/1/child''\<rparr>,
                          rel_data = None\<rparr>)]\<rparr>"
  by (simp add: ex_toString_def Model_def check_id_def build_attributes_def attributes_step_def
      schema_entry_def Object_prototype_members_def assign_def
      lookup_def relationship_schema_def relationships_step_def build_relationship_def)

text \<open>
  C7 says that an own property appears in \<^verbatim>\<open>attributes\<close> if and only if the property
  schema declares it and its \<^verbatim>\<open>public\<close> flag is \<^verbatim>\<open>true\<close> or unset, and that a property
  absent from the schema never appears. The code reads \<^verbatim>\<open>schema[ key ]\<close> off a plain
  object, which finds the members of \<^verbatim>\<open>Object.prototype\<close> too: for
  \<^verbatim>\<open>new Model({ name: 'test', id: '1', toString: 'x' })\<close>, whose model declares \<^verbatim>\<open>name\<close>
  and \<^verbatim>\<open>private\<close> only, \<^verbatim>\<open>buildResource\<close> returns the attributes \<^verbatim>\<open>name\<close> and
  \<^verbatim>\<open>toString\<close>.
\<close>

theorem undeclared_toString_in_attributes:
  "ctor_schema Model =
     Some \<lparr>properties = Some [(''name'', \<lparr>public = None\<rparr>), (''private'', \<lparr>public = Some False\<rparr>)],
           relationships = Some [(''children'', \<lparr>rel_type = ''child'', hasMany = Some True\<rparr>),
                                 (''child'', \<lparr>rel_type = ''single'', hasMany = None\<rparr>)]\<rparr>
   \<and> \<not> serialized_property
         \<lparr>properties = Some [(''name'', \<lparr>public = None\<rparr>), (''private'', \<lparr>public = Some False\<rparr>)],
          relationships = Some [(''children'', \<lparr>rel_type = ''child'', hasMany = Some True\<rparr>),
                                (''child'', \<lparr>rel_type = ''single'', hasMany = None\<rparr>)]\<rparr>
         ''toString''
   \<and> buildResource ex_toString True =
     Inr \<lparr>res_type = ''test'', res_id = JStr ''1'',
          res_attributes = [(''name'', JStr ''test''), (''toString'', JStr ''x'')],
          res_relationships = Some
            [(''children'', \<lparr>rel_links = Some \<lparr>self = ''/tests/1/relationships/children'',
                                                related = ''/tests/1/children''\<rparr>,
                             rel_data = None\<rparr>),
             (''child'', \<lparr>rel_links = Some \<lparr>self = ''/tests/1/relationships/child'',
                                             related = ''/tests/1/child''\<rparr>,
                          rel_data = None\<rparr>)]\<rparr>"
  by (simp add: ex_toString_resource serialized_property_def) (simp add: Model_def)

subsection \<open>Relationship data\<close>






text \<open>
  C6: for every declared relationship with a nested array or a truthy nested value, each
  resource identifier emitted has the type the relationship schema declares for the
  relationship, whatever the nested element is; for a nested value or array element that
  is a string, that string is the identifier's \<^verbatim>\<open>id\<close> (and for one with a truthy \<^verbatim>\<open>id\<close>,
  that \<^verbatim>\<open>id\<close>).
\<close>

theorem relationship_identifier_type:
  assumes "buildResource (JObj r c props) requireId = Inr res"
    and "ctor_schema c = Some sch" and "map_of (relationship_schema sch) key = Some entry"
  shows "\<exists>rels rel. res_relationships res = Some rels \<and> map_of rels key = Some rel
    \<and> (\<forall>ra items. lookup props key = JArr ra items \<longrightarrow>
          (\<exists>ids. rel_data rel = Some (Many ids) \<and> length ids = length items
             \<and> (\<forall>i<length items. ident_type (ids ! i) = rel_type entry
                   \<and> (\<forall>s. items ! i = JStr s \<longrightarrow> ident_id (ids ! i) = JStr s)
                   \<and> (\<forall>v. get (items ! i) ''id'' = Inr v \<and> truthy v \<longrightarrow> ident_id (ids ! i) = v))))
    \<and> (truthy (lookup props key) \<and> (\<forall>ra items. lookup props key \<noteq> JArr ra items) \<longrightarrow>
          (\<exists>i. rel_data rel = Some (One i) \<and> ident_type i = rel_type entry
             \<and> (\<forall>s. lookup props key = JStr s \<longrightarrow> ident_id i = JStr s)
             \<and> (\<forall>v. get (lookup props key) ''id'' = Inr v \<and> truthy v \<longrightarrow> ident_id i = v)))"
proof -
  have key: "key \<in> fst ` set (relationship_schema sch)"
    using assms(3) by (metis map_of_eq_None_iff option.distinct(1))
  from assms(1,2) key obtain rels rel where rels: "res_relationships res = Some rels"
    and rel: "map_of rels key = Some rel"
    and built: "build_relationship (plural c) props (relationship_schema sch) key = Inr rel"
    by (rule buildResource_relationship)
  have many: "\<exists>ids. rel_data rel = Some (Many ids) \<and> length ids = length items
             \<and> (\<forall>i<length items. ident_type (ids ! i) = rel_type entry
                   \<and> (\<forall>s. items ! i = JStr s \<longrightarrow> ident_id (ids ! i) = JStr s)
                   \<and> (\<forall>v. get (items ! i) ''id'' = Inr v \<and> truthy v \<longrightarrow> ident_id (ids ! i) = v))"
    if arr: "lookup props key = JArr ra items" for ra items
  proof -
    from built assms(3) arr obtain ids where ids: "rel_data rel = Some (Many ids)"
      and m: "mapM (identifier_of (rel_type entry)) items = Inr ids"
      by (rule build_relationship_array)
    from m have len: "length ids = length items"
      and each: "\<And>i. i < length items \<Longrightarrow> identifier_of (rel_type entry) (items ! i) = Inr (ids ! i)"
      by (simp_all add: mapM_Inr_iff)
    show ?thesis using ids len identifier_of_Inr [OF each] by blast
  qed
  have one: "\<exists>i. rel_data rel = Some (One i) \<and> ident_type i = rel_type entry
             \<and> (\<forall>s. lookup props key = JStr s \<longrightarrow> ident_id i = JStr s)
             \<and> (\<forall>v. get (lookup props key) ''id'' = Inr v \<and> truthy v \<longrightarrow> ident_id i = v)"
    if "truthy (lookup props key)" "\<forall>ra items. lookup props key \<noteq> JArr ra items"
  proof -
    from built assms(3) that obtain i where i: "rel_data rel = Some (One i)"
      and b: "identifier_of (rel_type entry) (lookup props key) = Inr i"
      by (rule build_relationship_single)
    show ?thesis using i identifier_of_Inr [OF b] by blast
  qed
  show ?thesis using rels rel many one by blast
qed

lemma ex_identifiers_resource:
  "buildResource ex_identifiers True =
     Inr \<lparr>res_type = ''test'', res_id = JStr ''1'', res_attributes = [],
          res_relationships = Some
            [(''children'', \<lparr>rel_links = Some \<lparr>self = ''/tests/1/relationships/children'',
                                                related = ''/tests/1/children''\<rparr>,
                             rel_data = Some (Many [\<lparr>ident_id = JStr ''2'', ident_type = ''child''\<rparr>,
                                                    \<lparr>ident_id = JStr ''3'', ident_type = ''child''\<rparr>])\<rparr>),
             (''child'', \<lparr>rel_links = Some \<lparr>self = ''/tests/1/relationships/child'',
                                             related = ''/tests/1/child''\<rparr>,
                          rel_data = Some (One \<lparr>ident_id = JStr ''4'', ident_type = ''single''\<rparr>)\<rparr>)]\<rparr>"
  by (simp add: ex_identifiers_def Model_def check_id_def build_attributes_def attributes_step_def schema_entry_def
      Object_prototype_members_def assign_def
      lookup_def relationship_schema_def relationships_step_def build_relationship_def
      identifier_of_def)

theorem relationship_identifier_type_witness:
  "\<exists>rels rel ids i.
     res_relationships (projr (buildResource ex_identifiers True)) = Some rels
     \<and> map_of rels ''children'' = Some rel \<and> rel_data rel = Some (Many ids)
     \<and> map ident_type ids = [''child'', ''child''] \<and> ident_id (ids ! 0) = JStr ''2''
     \<and> map_option rel_data (map_of rels ''child'') = Some (Some (One i))
     \<and> ident_type i = ''single'' \<and> ident_id i = JStr ''4''"
proof -
  let ?props = "[(''id'', JStr ''1''),
     (''children'', JArr 2 [JStr ''2'', JObj 3 Child [(''id'', JStr ''3'')]]),
     (''child'', JStr ''4'')]"
  let ?sch = "\<lparr>properties = Some [(''name'', \<lparr>public = None\<rparr>),
                                    (''private'', \<lparr>public = Some False\<rparr>)],
       relationships = Some [(''children'', \<lparr>rel_type = ''child'', hasMany = Some True\<rparr>),
                             (''child'', \<lparr>rel_type = ''single'', hasMany = None\<rparr>)]\<rparr>"
  note res = ex_identifiers_resource [unfolded ex_identifiers_def]
  have sch: "ctor_schema Model = Some ?sch" by (simp add: Model_def)
  have children: "map_of (relationship_schema ?sch) ''children''
      = Some \<lparr>rel_type = ''child'', hasMany = Some True\<rparr>"
    and child: "map_of (relationship_schema ?sch) ''child''
      = Some \<lparr>rel_type = ''single'', hasMany = None\<rparr>"
    by (simp_all add: relationship_schema_def)
  from relationship_identifier_type [OF res sch children]
    relationship_identifier_type [OF res sch child]
  show ?thesis by (simp add: ex_identifiers_resource)
qed

subsection \<open>Error documents\<close>

lemma get_no_property:
  "\<not> nullish v \<Longrightarrow> \<not> has_property v key \<Longrightarrow> get v key = Inr JUndefined"
proof (cases v)
  case (JObj r c props)
  assume "\<not> has_property v key"
  with JObj have "map_of props key = None" "map_of (inherited c) key = None"
    by (simp_all add: map_of_eq_None_iff)
  with JObj show ?thesis by (simp add: lookup_def)
qed simp_all

lemma error_object_of_Inr:
  assumes "\<not> nullish e"
  shows "\<exists>obj. error_object_of e = Inr obj \<and> get e ''message'' = Inr (detail obj)
           \<and> get e ''status'' = Inr (status obj)"
  using assms by (cases e) (simp_all add: error_object_of_def)

text \<open>
  C8: for every input to \<^verbatim>\<open>errorsToJSON\<close>, a value or an array of values none of which is
  \<^verbatim>\<open>null\<close> or \<^verbatim>\<open>undefined\<close>, a scalar is normalized into a one-element sequence and each
  value is mapped to an error object whose \<^verbatim>\<open>detail\<close> is its \<^verbatim>\<open>message\<close> and whose
  \<^verbatim>\<open>status\<close> is its \<^verbatim>\<open>status\<close>, wrapped as \<^verbatim>\<open>{ errors: [...] }\<close>; a value that has no
  \<^verbatim>\<open>message\<close> (no \<^verbatim>\<open>status\<close>) property, neither its own nor one it inherits, gives
  \<^verbatim>\<open>detail\<close> (\<^verbatim>\<open>status\<close>) \<^verbatim>\<open>undefined\<close>, and the call does not fail.
\<close>

theorem errorsToJSON_maps:
  assumes "\<forall>e \<in> set (error_values errors). \<not> nullish e"
  shows "\<exists>response.
      errorsToJSON render errors stringify
        = Inr (if stringify then Text (render response) else Object response)
    \<and> length response = length (error_values errors)
    \<and> ((\<forall>r es. errors \<noteq> JArr r es) \<longrightarrow> error_values errors = [errors])
    \<and> (\<forall>r es. errors = JArr r es \<longrightarrow> error_values errors = es)
    \<and> (\<forall>i<length response.
          get (error_values errors ! i) ''message'' = Inr (detail (response ! i))
        \<and> get (error_values errors ! i) ''status'' = Inr (status (response ! i))
        \<and> (\<not> has_property (error_values errors ! i) ''message''
              \<longrightarrow> detail (response ! i) = JUndefined)
        \<and> (\<not> has_property (error_values errors ! i) ''status''
              \<longrightarrow> status (response ! i) = JUndefined))"
proof -
  let ?es = "error_values errors"
  have "\<exists>obj. error_object_of e = Inr obj" if "e \<in> set ?es" for e
    using error_object_of_Inr [of e] assms that by blast
  then obtain response where m: "mapM error_object_of ?es = Inr response"
    using mapM_total [of ?es error_object_of] by blast
  then have len: "length response = length ?es"
    and each: "\<And>i. i < length ?es \<Longrightarrow> error_object_of (?es ! i) = Inr (response ! i)"
    by (simp_all add: mapM_Inr_iff)
  have fields: "get (?es ! i) ''message'' = Inr (detail (response ! i))
        \<and> get (?es ! i) ''status'' = Inr (status (response ! i))
        \<and> (\<not> has_property (?es ! i) ''message'' \<longrightarrow> detail (response ! i) = JUndefined)
        \<and> (\<not> has_property (?es ! i) ''status'' \<longrightarrow> status (response ! i) = JUndefined)"
    if i: "i < length response" for i
  proof -
    have nn: "\<not> nullish (?es ! i)" using assms i len by simp
    from error_object_of_Inr [OF nn] each [of i] i len
    have g: "get (?es ! i) ''message'' = Inr (detail (response ! i))"
      "get (?es ! i) ''status'' = Inr (status (response ! i))" by auto
    then show ?thesis using get_no_property [OF nn] by fastforce
  qed
  have out: "errorsToJSON render errors stringify
        = Inr (if stringify then Text (render response) else Object response)"
    using m by (simp add: errorsToJSON_def JSON_stringify_def)
  have norm: "(\<forall>r es. errors \<noteq> JArr r es) \<longrightarrow> error_values errors = [errors]"
    "\<forall>r es. errors = JArr r es \<longrightarrow> error_values errors = es"
    by (cases errors; simp add: error_values_def)+
  show ?thesis using out len norm fields by blast
qed

lemma ex_errors_response:
  "errorsToJSON (\<lambda>response. []) (JArr 4 [ex_new_error, ex_error_test]) False
     = Inr (Object [\<lparr>detail = JStr [], status = JUndefined\<rparr>,
                    \<lparr>detail = JStr ''test'', status = JUndefined\<rparr>])"
  by (simp add: errorsToJSON_def error_values_def error_object_of_def ex_new_error_def
      ex_error_test_def Error_ctor_def lookup_def)

theorem errorsToJSON_maps_witness:
  "\<not> nullish ex_no_message \<and> \<not> has_property ex_no_message ''message''
   \<and> errorsToJSON (\<lambda>response. []) ex_no_message False
       = Inr (Object [\<lparr>detail = JUndefined, status = JNum 500\<rparr>])
   \<and> has_property ex_new_error ''message'' \<and> \<not> own_property ex_new_error ''message''
   \<and> errorsToJSON (\<lambda>response. []) (JArr 4 [ex_new_error, ex_error_test]) False
       = Inr (Object [\<lparr>detail = JStr [], status = JUndefined\<rparr>,
                      \<lparr>detail = JStr ''test'', status = JUndefined\<rparr>])"
proof -
  have h: "\<forall>e \<in> set (error_values ex_no_message). \<not> nullish e"
    by (simp add: error_values_def ex_no_message_def)
  from errorsToJSON_maps [OF h, of "\<lambda>response. []" False]
  obtain response where out: "errorsToJSON (\<lambda>response. []) ex_no_message False = Inr (Object response)"
    and len: "length response = length (error_values ex_no_message)"
    and fields: "\<And>i. i < length response \<Longrightarrow>
          (\<not> has_property (error_values ex_no_message ! i) ''message''
              \<longrightarrow> detail (response ! i) = JUndefined)
        \<and> get (error_values ex_no_message ! i) ''status'' = Inr (status (response ! i))"
    by auto
  have vals: "error_values ex_no_message = [ex_no_message]"
    by (simp add: error_values_def ex_no_message_def)
  from len vals obtain obj where response: "response = [obj]"
    by (cases response) auto
  have none: "\<not> has_property ex_no_message ''message''"
    by (simp add: ex_no_message_def Object_ctor_def)
  from fields [of 0] response vals none
  have "detail obj = JUndefined" "status obj = JNum 500"
    by (simp_all add: ex_no_message_def lookup_def)
  then have "obj = \<lparr>detail = JUndefined, status = JNum 500\<rparr>" by simp
  with out response none show ?thesis
    by (simp add: ex_errors_response) (simp add: ex_no_message_def ex_new_error_def Error_ctor_def)
qed

subsection \<open>Deduplication\<close>

lemma strict_eq_sym: "strict_eq a b \<Longrightarrow> strict_eq b a"
  by (cases a; cases b; simp)

lemma strict_eq_trans: "strict_eq a b \<Longrightarrow> strict_eq b c \<Longrightarrow> strict_eq a c"
  by (cases a; cases b; simp; cases c; simp)

lemma same_document_sym: "same_document a b \<Longrightarrow> same_document b a"
  by (auto simp: same_document_def dest: strict_eq_sym)

lemma same_document_trans: "same_document a b \<Longrightarrow> same_document b c \<Longrightarrow> same_document a c"
  by (auto simp: same_document_def dest: strict_eq_trans)

lemma dedupe_snoc: "dedupe (xs @ [x]) = dedupe_step (dedupe xs) x"
  by (simp add: dedupe_def)

lemma dedupe_Nil: "dedupe [] = []"
  by (simp add: dedupe_def)

lemma dedupe_subseq: "subseq (dedupe xs) xs"
proof (induction xs rule: rev_induct)
  case Nil
  then show ?case by (simp add: dedupe_Nil)
next
  case (snoc x xs)
  then show ?case
    by (auto simp: dedupe_snoc dedupe_step_def intro: subseq_rev_drop_many)
qed

lemma dedupe_set: "set (dedupe xs) \<subseteq> set xs"
  using dedupe_subseq [of xs] by (auto dest: list_emb_set)

lemma dedupe_covers:
  "x \<in> set xs \<Longrightarrow> x \<in> set (dedupe xs) \<or> (\<exists>d \<in> set (dedupe xs). same_document d x)"
proof (induction xs rule: rev_induct)
  case Nil
  then show ?case by simp
next
  case (snoc y xs)
  then show ?case
    by (auto simp: dedupe_snoc dedupe_step_def list_ex_iff)
qed

lemma dedupe_seen:
  "list_ex (\<lambda>doc. same_document doc x) (dedupe xs) \<longleftrightarrow> (\<exists>j<length xs. same_document (xs ! j) x)"
proof
  assume "list_ex (\<lambda>doc. same_document doc x) (dedupe xs)"
  then obtain d where "d \<in> set xs" "same_document d x"
    using dedupe_set [of xs] by (auto simp: list_ex_iff)
  then show "\<exists>j<length xs. same_document (xs ! j) x"
    by (auto simp: in_set_conv_nth)
next
  assume "\<exists>j<length xs. same_document (xs ! j) x"
  then obtain j where j: "j < length xs" "same_document (xs ! j) x" by blast
  then have "xs ! j \<in> set xs" by simp
  from dedupe_covers [OF this]
  have "\<exists>d \<in> set (dedupe xs). same_document d x"
    using j(2) by (auto intro: same_document_trans)
  then show "list_ex (\<lambda>doc. same_document doc x) (dedupe xs)"
    by (simp add: list_ex_iff)
qed

lemma dedupe_first_occurrences:
  "dedupe xs = map (\<lambda>i. xs ! i) (filter (first_occurrence xs) [0..<length xs])"
proof (induction xs rule: rev_induct)
  case Nil
  then show ?case by (simp add: dedupe_Nil)
next
  case (snoc x xs)
  have same: "first_occurrence (xs @ [x]) i = first_occurrence xs i" if "i < length xs" for i
    using that by (simp add: first_occurrence_def nth_append)
  have last: "first_occurrence (xs @ [x]) (length xs)
      \<longleftrightarrow> \<not> list_ex (\<lambda>doc. same_document doc x) (dedupe xs)"
    by (simp add: first_occurrence_def dedupe_seen nth_append)
  have "filter (first_occurrence (xs @ [x])) [0..<length xs]
      = filter (first_occurrence xs) [0..<length xs]"
    by (rule filter_cong) (simp_all add: same)
  moreover have "map (\<lambda>i. (xs @ [x]) ! i) (filter (first_occurrence xs) [0..<length xs])
      = map (\<lambda>i. xs ! i) (filter (first_occurrence xs) [0..<length xs])"
    by (rule map_cong) (simp_all add: nth_append)
  ultimately show ?case
    using last snoc.IH by (simp add: dedupe_snoc dedupe_step_def)
qed

lemma dedupe_unique:
  "i < length (dedupe xs) \<Longrightarrow> j < i \<Longrightarrow> \<not> same_document (dedupe xs ! j) (dedupe xs ! i)"
proof (induction xs arbitrary: i j rule: rev_induct)
  case Nil
  then show ?case by (simp add: dedupe_Nil)
next
  case (snoc x xs)
  show ?case
  proof (cases "list_ex (\<lambda>doc. same_document doc x) (dedupe xs)")
    case True
    then show ?thesis using snoc by (simp add: dedupe_snoc dedupe_step_def)
  next
    case False
    then have d: "dedupe (xs @ [x]) = dedupe xs @ [x]"
      by (simp add: dedupe_snoc dedupe_step_def)
    show ?thesis
    proof (cases "i < length (dedupe xs)")
      case True
      then show ?thesis using snoc.IH [of i j] snoc.prems(2) d by (simp add: nth_append)
    next
      case False
      then have i: "i = length (dedupe xs)" using snoc.prems(1) d by simp
      have "dedupe xs ! j \<in> set (dedupe xs)" using i snoc.prems(2) by simp
      then have "\<not> same_document (dedupe xs ! j) x"
        using \<open>\<not> list_ex (\<lambda>doc. same_document doc x) (dedupe xs)\<close> by (auto simp: list_ex_iff)
      then show ?thesis using i snoc.prems(2) d by (simp add: nth_append)
    qed
  qed
qed

lemma dedupe_empty: "dedupe xs = [] \<longleftrightarrow> xs = []"
proof (cases xs)
  case Nil
  then show ?thesis by (simp add: dedupe_Nil)
next
  case (Cons x ys)
  have "foldl dedupe_step acc zs \<noteq> []" if "acc \<noteq> []" for acc zs
    using that by (induction zs arbitrary: acc) (auto simp: dedupe_step_def)
  then show ?thesis using Cons by (simp add: dedupe_def dedupe_step_def)
qed

lemma flatten_arrays: "flatten (map (\<lambda>d. Arr (map Leaf d)) docs) = concat docs"
proof -
  have leaves: "flatten (map Leaf d @ rest) = d @ flatten rest" for d :: "'a list" and rest
    by (induction d) auto
  have "flatten (map Leaf d) = d" for d :: "'a list"
    using leaves [of d "[]"] by simp
  then show ?thesis by (induction docs) auto
qed


subsection \<open>What a successful toJSON call has done\<close>

lemma not_array_case:
  "\<forall>r items. v \<noteq> JArr r items \<Longrightarrow> (case v of JArr r items \<Rightarrow> f r items | _ \<Rightarrow> b) = b"
  by (cases v) auto

lemma toJSON_Inr:
  assumes "truthy instance" and "toJSON render instance stringify requireId = Inr out"
  obtains dat flat where "collected instance = Inr flat"
    "out = (let doc = \<lparr>doc_data = dat,
                        doc_included = (if flat \<noteq> [] then Some (dedupe flat) else None)\<rparr>
            in if stringify then Text (render doc) else Object doc)"
    "\<And>r items. instance = JArr r items \<Longrightarrow> \<exists>rs. map_buildResource items = Inr rs \<and> dat = Multiple rs"
    "(\<forall>r items. instance \<noteq> JArr r items) \<Longrightarrow>
       \<exists>res. buildResource instance requireId = Inr res \<and> dat = Single res"
proof (cases "\<exists>r items. instance = JArr r items")
  case True
  then obtain r items where arr: "instance = JArr r items" by blast
  with assms obtain rs where rs: "map_buildResource items = Inr rs"
    by (cases "map_buildResource items") (auto simp: toJSON_def)
  with assms arr obtain docs where docs: "mapM buildCompoundDocuments items = Inr docs"
    by (cases "mapM buildCompoundDocuments items") (auto simp: toJSON_def)
  have "collected instance = Inr (concat docs)"
    using arr docs by (simp add: collected_def)
  moreover have "out = (let doc = \<lparr>doc_data = Multiple rs,
                        doc_included = (if concat docs \<noteq> [] then Some (dedupe (concat docs)) else None)\<rparr>
            in if stringify then Text (render doc) else Object doc)"
    using assms arr rs docs by (auto simp: toJSON_def flatten_arrays JSON_stringify_def Let_def)
  ultimately show ?thesis using that [of "concat docs" "Multiple rs"] arr rs by simp
next
  case False
  then have na: "\<forall>r items. instance \<noteq> JArr r items" by simp
  have c: "collected instance = buildCompoundDocuments instance"
    by (simp add: collected_def not_array_case [OF na])
  from assms obtain res where res: "buildResource instance requireId = Inr res"
    by (cases "buildResource instance requireId") (auto simp: toJSON_def not_array_case [OF na])
  with assms obtain docs where docs: "buildCompoundDocuments instance = Inr docs"
    by (cases "buildCompoundDocuments instance") (auto simp: toJSON_def not_array_case [OF na])
  have "out = (let doc = \<lparr>doc_data = Single res,
                        doc_included = (if docs \<noteq> [] then Some (dedupe docs) else None)\<rparr>
            in if stringify then Text (render doc) else Object doc)"
    using assms res docs
    by (auto simp: toJSON_def JSON_stringify_def Let_def not_array_case [OF na])
  then show ?thesis using that [of docs "Single res"] c docs res False by simp
qed


subsection \<open>The examples, evaluated\<close>

lemmas eval_defs = Model_def Child_def SingleChild_def Parent_def check_id_def
  build_attributes_def attributes_step_def schema_entry_def Object_prototype_members_def
  assign_def lookup_def relationship_schema_def relationships_step_def
  build_relationship_def identifier_of_def has_schema_def has_id_def resource_if_id_def
  filter_truthy_def List.map_filter_def missing_id_def

lemma ex_duplicates_document:
  "toJSON render ex_duplicates False True =
     Inr (Object \<lparr>doc_data = Single
       \<lparr>res_type = ''test'', res_id = JStr ''1'', res_attributes = [(''name'', JStr ''test'')],
        res_relationships = Some
          [(''children'', \<lparr>rel_links = Some \<lparr>self = ''/tests/1/relationships/children'',
                                              related = ''/tests/1/children''\<rparr>,
              rel_data = Some (Many [\<lparr>ident_id = JStr ''2'', ident_type = ''child''\<rparr>,
                                     \<lparr>ident_id = JStr ''2'', ident_type = ''child''\<rparr>])\<rparr>),
           (''child'', \<lparr>rel_links = Some \<lparr>self = ''/tests/1/relationships/child'',
                                           related = ''/tests/1/child''\<rparr>,
              rel_data = None\<rparr>)]\<rparr>,
      doc_included = Some
        [\<lparr>res_type = ''child'', res_id = JStr ''2'', res_attributes = [(''name'', JStr ''child1'')],
          res_relationships = Some
            [(''deep'', \<lparr>rel_links = Some \<lparr>self = ''/childs/2/relationships/deep'',
                                            related = ''/childs/2/deep''\<rparr>,
                         rel_data = None\<rparr>)]\<rparr>]\<rparr>)"
  by (simp add: ex_duplicates_def toJSON_def eval_defs dedupe_def dedupe_step_def same_document_def)

lemma ex_array_no_id_document:
  "toJSON render ex_array_no_id False True =
     Inr (Object \<lparr>doc_data = Multiple
       [\<lparr>res_type = ''test'', res_id = JUndefined, res_attributes = [(''name'', JStr ''test'')],
         res_relationships = Some
           [(''children'', \<lparr>rel_links = None, rel_data = None\<rparr>),
            (''child'', \<lparr>rel_links = None, rel_data = None\<rparr>)]\<rparr>],
      doc_included = None\<rparr>)"
  by (simp add: ex_array_no_id_def toJSON_def map_buildResource_def eval_defs)

lemma ex_array_no_id_second_fails:
  "toJSON render ex_array_no_id_second False True = Inl (Error ''Expected an \"id\" property.'')"
  by (simp add: ex_array_no_id_second_def toJSON_def map_buildResource_def eval_defs upt_rec)

lemma ex_single_chain_documents:
  "buildCompoundDocuments ex_single_chain =
     Inr [\<lparr>res_type = ''child'', res_id = JStr ''2'', res_attributes = [],
           res_relationships = Some
             [(''deep'', \<lparr>rel_links = Some \<lparr>self = ''/childs/2/relationships/deep'',
                                             related = ''/childs/2/deep''\<rparr>,
                          rel_data = Some (One \<lparr>ident_id = JStr ''3'', ident_type = ''single''\<rparr>)\<rparr>)]\<rparr>]"
  by (simp add: ex_single_chain_def ex_child_def eval_defs)

lemma ex_array_chain_documents:
  "buildCompoundDocuments ex_array_chain =
     Inr [\<lparr>res_type = ''single'', res_id = JStr ''3'', res_attributes = [(''name'', JStr ''deep'')],
           res_relationships = None\<rparr>,
          \<lparr>res_type = ''child'', res_id = JStr ''2'', res_attributes = [],
           res_relationships = Some
             [(''deep'', \<lparr>rel_links = Some \<lparr>self = ''/childs/2/relationships/deep'',
                                             related = ''/childs/2/deep''\<rparr>,
                          rel_data = Some (One \<lparr>ident_id = JStr ''3'', ident_type = ''single''\<rparr>)\<rparr>)]\<rparr>]"
  by (simp add: ex_array_chain_def ex_child_def eval_defs)


subsection \<open>Instances that are serialized without a TypeError\<close>

lemma model_constructor: "ctor_schema c = Some sch \<Longrightarrow> inherited c = []"
  by (cases c) simp_all

lemma get_model_instance:
  "ctor_schema c = Some sch \<Longrightarrow> get (JObj r c props) key = Inr (lookup props key)"
  by (simp add: model_constructor lookup_def split: option.splits)

lemma serializable_object:
  assumes "serializable v"
  obtains r c props sch ps where "v = JObj r c props" "ctor_schema c = Some sch"
    "properties sch = Some ps" "''hasOwnProperty'' \<notin> fst ` set props"
    "''constructor'' \<notin> fst ` set props"
proof (cases v)
  case (JObj r c props)
  with assms obtain sch where sch: "ctor_schema c = Some sch"
    by (cases "ctor_schema c") auto
  with assms JObj obtain ps where "properties sch = Some ps" by auto
  moreover have "''hasOwnProperty'' \<notin> fst ` set props" "''constructor'' \<notin> fst ` set props"
    using assms JObj by simp_all
  ultimately show ?thesis using JObj sch that by blast
qed (insert assms, simp_all)

lemma serializable_items:
  assumes "serializable (JObj r c props)" and "ctor_schema c = Some sch"
    and "key \<in> fst ` set (relationship_schema sch)"
    and "lookup props key = JArr ra items" and "item \<in> set items"
  shows "\<not> nullish item"
proof -
  have "list_all
            (\<lambda>key. case lookup props key of
                     JArr ra items \<Rightarrow> list_all (\<lambda>item. \<not> nullish item) items
                   | _ \<Rightarrow> True)
            (map fst (relationship_schema sch))"
    using assms(1,2) by simp
  moreover have "key \<in> set (map fst (relationship_schema sch))" using assms(3) by simp
  ultimately have "case lookup props key of
                     JArr ra items \<Rightarrow> list_all (\<lambda>item. \<not> nullish item) items
                   | _ \<Rightarrow> True"
    unfolding list_all_iff by blast
  then show ?thesis using assms(4,5) by (simp add: list_all_iff)
qed






lemma identifier_of_total: "\<not> nullish item \<Longrightarrow> \<exists>i. identifier_of t item = Inr i"
  by (cases item) (simp_all add: identifier_of_def)

lemma truthy_not_nullish: "truthy v \<Longrightarrow> \<not> nullish v"
  by (cases v) simp_all

lemma build_relationship_total:
  assumes "serializable (JObj r c props)" and "ctor_schema c = Some sch"
    and "key \<in> fst ` set (relationship_schema sch)"
  shows "\<exists>rel. build_relationship plu props (relationship_schema sch) key = Inr rel"
proof -
  from assms(3) obtain entry where entry: "map_of (relationship_schema sch) key = Some entry"
    using map_of_eq_None_iff [of "relationship_schema sch" key] by auto
  show ?thesis
  proof (cases "\<exists>ra items. lookup props key = JArr ra items")
    case True
    then obtain ra items where arr: "lookup props key = JArr ra items" by blast
    have "\<exists>i. identifier_of (rel_type entry) item = Inr i" if "item \<in> set items" for item
      using serializable_items [OF assms arr that] by (rule identifier_of_total)
    then obtain ids where "mapM (identifier_of (rel_type entry)) items = Inr ids"
      using mapM_total [of items "identifier_of (rel_type entry)"] by blast
    then show ?thesis using entry arr by (simp add: build_relationship_def Let_def)
  next
    case False
    then have na: "\<forall>ra items. lookup props key \<noteq> JArr ra items" by simp
    show ?thesis
    proof (cases "truthy (lookup props key)")
      case True
      then obtain i where "identifier_of (rel_type entry) (lookup props key) = Inr i"
        using identifier_of_total truthy_not_nullish by blast
      then show ?thesis using entry True
        by (simp add: build_relationship_def Let_def not_array_case [OF na])
    next
      case False
      then show ?thesis using entry
        by (simp add: build_relationship_def Let_def not_array_case [OF na])
    qed
  qed
qed

lemma check_id_serializable:
  assumes "serializable v" and "requireId \<longrightarrow> own_property v ''id''"
  shows "check_id v requireId = Inr ()"
proof -
  from assms(1) obtain r c props sch where v: "v = JObj r c props"
    and sch: "ctor_schema c = Some sch" and own: "''hasOwnProperty'' \<notin> fst ` set props"
    by (rule serializable_object)
  show ?thesis using assms(2) own unfolding v
    by (simp add: check_id_def model_constructor [OF sch])
qed

lemma buildResource_serializable:
  assumes "serializable v" and "requireId \<longrightarrow> own_property v ''id''"
  shows "\<exists>res. buildResource v requireId = Inr res"
proof -
  from assms(1) obtain r c props sch ps where v: "v = JObj r c props"
    and sch: "ctor_schema c = Some sch" and ps: "properties sch = Some ps"
    and noc: "''constructor'' \<notin> fst ` set props"
    by (rule serializable_object)
  have chk: "check_id (JObj r c props) requireId = Inr ()"
    using check_id_serializable [OF assms] v by simp
  have so: "schema_of (JObj r c props) = Inr (Some sch)"
    using schema_of_object [OF noc] sch by simp
  have "\<exists>obj'. relationships_step (plural c) props (relationship_schema sch) obj key = Inr obj'"
    if "key \<in> set (map fst (relationship_schema sch))" for obj key
  proof -
    from that have "key \<in> fst ` set (relationship_schema sch)" by simp
    from build_relationship_total [OF assms(1) [unfolded v] sch this, of "plural c"]
    obtain rel where "build_relationship (plural c) props (relationship_schema sch) key = Inr rel"
      by blast
    then show ?thesis by (simp add: relationships_step_def)
  qed
  then obtain rels where "foldM (relationships_step (plural c) props (relationship_schema sch)) []
      (map fst (relationship_schema sch)) = Inr rels"
    using foldM_total [of "map fst (relationship_schema sch)"
        "relationships_step (plural c) props (relationship_schema sch)" "[]"] by blast
  then show ?thesis unfolding v buildResource.simps chk so
    using ps by (simp add: build_attributes_def)
qed









subsection \<open>The included documents\<close>

lemma ex_included_dedupe: "dedupe ex_included = [ex_included ! 0, ex_included ! 1]"
  by (simp add: ex_included_def dedupe_def dedupe_step_def same_document_def)

text \<open>
  C5: for every flat sequence of resource objects, the deduplication returns the first
  occurrences in their order: a subsequence of its input (no entry is merged or changed)
  in which no two entries have the same type and identifier; and the document
  \<^verbatim>\<open>toJSON\<close> builds carries \<^verbatim>\<open>included\<close> exactly when the deduplicated sequence of the
  collected compound documents is not empty, and then it is that sequence.
\<close>

theorem dedupe_first_occurrences_kept:
  "dedupe included
     = map (\<lambda>i. included ! i) (filter (first_occurrence included) [0..<length included])
   \<and> subseq (dedupe included) included
   \<and> (\<forall>i<length (dedupe included). \<forall>j<length (dedupe included).
         i \<noteq> j \<longrightarrow> \<not> same_document (dedupe included ! i) (dedupe included ! j))
   \<and> (truthy instance \<and> toJSON render instance stringify requireId = Inr out \<longrightarrow>
        (\<exists>doc flat. collected instance = Inr flat
           \<and> out = (if stringify then Text (render doc) else Object doc)
           \<and> doc_included doc = (if dedupe flat \<noteq> [] then Some (dedupe flat) else None)))"
proof -
  have unique: "\<not> same_document (dedupe included ! i) (dedupe included ! j)"
    if "i < length (dedupe included)" "j < length (dedupe included)" "i \<noteq> j" for i j
  proof (cases "i < j")
    case True
    then show ?thesis using dedupe_unique [of j included i] that by simp
  next
    case False
    then have "j < i" using that(3) by simp
    then show ?thesis
      using dedupe_unique [of i included j] that same_document_sym by blast
  qed
  have doc: "\<exists>doc flat. collected instance = Inr flat
           \<and> out = (if stringify then Text (render doc) else Object doc)
           \<and> doc_included doc = (if dedupe flat \<noteq> [] then Some (dedupe flat) else None)"
    if "truthy instance" "toJSON render instance stringify requireId = Inr out"
  proof -
    from that obtain dat flat where flat: "collected instance = Inr flat"
      and out: "out = (let doc = \<lparr>doc_data = dat,
                        doc_included = (if flat \<noteq> [] then Some (dedupe flat) else None)\<rparr>
            in if stringify then Text (render doc) else Object doc)"
      by (rule toJSON_Inr)
    let ?doc = "\<lparr>doc_data = dat,
                 doc_included = (if flat \<noteq> [] then Some (dedupe flat) else None)\<rparr>"
    have "doc_included ?doc = (if dedupe flat \<noteq> [] then Some (dedupe flat) else None)"
      by (simp add: dedupe_empty)
    moreover have "out = (if stringify then Text (render ?doc) else Object ?doc)"
      using out by (simp add: Let_def)
    ultimately show ?thesis using flat by blast
  qed
  show ?thesis
    using dedupe_first_occurrences [of included] dedupe_subseq [of included] unique doc
    by blast
qed


theorem dedupe_first_occurrences_kept_witness:
  "dedupe ex_included = [ex_included ! 0, ex_included ! 1]
   \<and> \<not> same_document (dedupe ex_included ! 0) (dedupe ex_included ! 1)
   \<and> (\<exists>doc. toJSON (\<lambda>d. []) ex_duplicates False True = Inr (Object doc)
        \<and> collected ex_duplicates
            = Inr [\<lparr>res_type = ''child'', res_id = JStr ''2'', res_attributes = [(''name'', JStr ''child1'')],
          res_relationships = Some
            [(''deep'', \<lparr>rel_links = Some \<lparr>self = ''/childs/2/relationships/deep'',
                                            related = ''/childs/2/deep''\<rparr>,
                         rel_data = None\<rparr>)]\<rparr>,
                   \<lparr>res_type = ''child'', res_id = JStr ''2'', res_attributes = [(''name'', JStr ''child2'')],
          res_relationships = Some
            [(''deep'', \<lparr>rel_links = Some \<lparr>self = ''/childs/2/relationships/deep'',
                                            related = ''/childs/2/deep''\<rparr>,
                         rel_data = None\<rparr>)]\<rparr>]
        \<and> doc_included doc
            = Some [\<lparr>res_type = ''child'', res_id = JStr ''2'', res_attributes = [(''name'', JStr ''child1'')],
          res_relationships = Some
            [(''deep'', \<lparr>rel_links = Some \<lparr>self = ''/childs/2/relationships/deep'',
                                            related = ''/childs/2/deep''\<rparr>,
                         rel_data = None\<rparr>)]\<rparr>])"
proof -
  have len: "(0::nat) < length (dedupe ex_included)" "(1::nat) < length (dedupe ex_included)"
    by (simp_all add: ex_included_dedupe)
  have t: "truthy ex_duplicates" by (simp add: ex_duplicates_def)
  have c: "collected ex_duplicates
            = Inr [\<lparr>res_type = ''child'', res_id = JStr ''2'', res_attributes = [(''name'', JStr ''child1'')],
          res_relationships = Some
            [(''deep'', \<lparr>rel_links = Some \<lparr>self = ''/childs/2/relationships/deep'',
                                            related = ''/childs/2/deep''\<rparr>,
                         rel_data = None\<rparr>)]\<rparr>,
                   \<lparr>res_type = ''child'', res_id = JStr ''2'', res_attributes = [(''name'', JStr ''child2'')],
          res_relationships = Some
            [(''deep'', \<lparr>rel_links = Some \<lparr>self = ''/childs/2/relationships/deep'',
                                            related = ''/childs/2/deep''\<rparr>,
                         rel_data = None\<rparr>)]\<rparr>]"
    by (simp add: collected_def ex_duplicates_def eval_defs)
  note kept = dedupe_first_occurrences_kept [of ex_included ex_duplicates "\<lambda>d. []" False True]
  from kept len have "\<not> same_document (dedupe ex_included ! 0) (dedupe ex_included ! 1)"
    by (metis zero_neq_one)
  then show ?thesis
    using ex_included_dedupe c ex_duplicates_document [of "\<lambda>d. []"] by simp
qed

subsection \<open>Arrays of instances\<close>

text \<open>
  What does hold for an array: the first element is built with \<^verbatim>\<open>requireId\<close> falsy, and
  an element after the first that has no own \<^verbatim>\<open>id\<close> makes the call fail with the missing
  identifier error, once the elements before it are built.
\<close>

lemma mapM_first_error:
  "i < length xs \<Longrightarrow> f (xs ! i) = Inl e \<Longrightarrow> (\<And>j. j < i \<Longrightarrow> \<exists>y. f (xs ! j) = Inr y) \<Longrightarrow>
   mapM f xs = Inl e"
proof (induction xs arbitrary: i)
  case Nil
  then show ?case by simp
next
  case (Cons x xs)
  show ?case
  proof (cases i)
    case 0
    then show ?thesis using Cons.prems(2) by simp
  next
    case (Suc k)
    then obtain y where y: "f x = Inr y" using Cons.prems(3) [of 0] by auto
    have "mapM f xs = Inl e"
    proof (rule Cons.IH [of k])
      show "k < length xs" using Cons.prems(1) Suc by simp
      show "f (xs ! k) = Inl e" using Cons.prems(2) Suc by simp
      show "\<exists>y. f (xs ! j) = Inr y" if "j < k" for j
        using Cons.prems(3) [of "Suc j"] that Suc by simp
    qed
    then show ?thesis using y by simp
  qed
qed

lemma buildResource_requires_id:
  "hasOwnProperty v ''id'' = Inr False \<Longrightarrow> buildResource v True = Inl missing_id"
  by (cases v) (simp_all add: check_id_def)

lemma toJSON_array_requires_id_after_first:
  assumes "0 < i" and "i < length items"
    and "hasOwnProperty (items ! i) ''id'' = Inr False"
    and "\<And>j. j < i \<Longrightarrow> \<exists>res. buildResource (items ! j) (j \<noteq> 0) = Inr res"
  shows "toJSON render (JArr r items) stringify requireId = Inl missing_id"
proof -
  let ?f = "\<lambda>(item, index). buildResource item (truthy (JNum (int index)))"
  let ?xs = "zip items [0..<length items]"
  have nth: "?xs ! j = (items ! j, j)" if "j < length items" for j
    using that by simp
  have "mapM ?f ?xs = Inl missing_id"
  proof (rule mapM_first_error [of i])
    show "i < length ?xs" using assms(2) by simp
    show "?f (?xs ! i) = Inl missing_id"
      using nth [OF assms(2)] assms(1,3) by (simp add: buildResource_requires_id)
    show "\<exists>y. ?f (?xs ! j) = Inr y" if "j < i" for j
    proof -
      have "j < length items" using that assms(2) by simp
      from nth [OF this] assms(4) [OF that] show ?thesis by simp
    qed
  qed
  then show ?thesis by (simp add: toJSON_def map_buildResource_def)
qed

lemma map_buildResource_first_element:
  assumes "map_buildResource (item # items) = Inr rs"
  shows "\<exists>res rest. rs = res # rest \<and> buildResource item False = Inr res"
proof -
  let ?f = "\<lambda>(item, index). buildResource item (truthy (JNum (int index)))"
  have "[0..<Suc (length items)] = 0 # [Suc 0..<Suc (length items)]"
    by (rule upt_conv_Cons) simp
  then have "zip (item # items) [0..<length (item # items)]
      = (item, 0) # zip items [1..<Suc (length items)]"
    by (simp del: upt_Suc)
  then have "mapM ?f ((item, 0) # zip items [1..<Suc (length items)]) = Inr rs"
    using assms by (simp add: map_buildResource_def)
  then show ?thesis by (auto split: sum.splits)
qed

text \<open>
  C1 says that \<^verbatim>\<open>toJSON\<close> fails with the missing identifier error for every array with an
  element that has no own \<^verbatim>\<open>id\<close>, at any position. \<^verbatim>\<open>instance.map(buildResource)\<close> hands
  the index to \<^verbatim>\<open>buildResource\<close> as \<^verbatim>\<open>requireId\<close>, and the index \<^verbatim>\<open>0\<close> is falsy: the first
  element is serialized without an identifier.
\<close>

theorem array_first_element_needs_no_id:
  "toJSON render ex_array_no_id False True =
     Inr (Object \<lparr>doc_data = Multiple
       [\<lparr>res_type = ''test'', res_id = JUndefined, res_attributes = [(''name'', JStr ''test'')],
         res_relationships = Some
           [(''children'', \<lparr>rel_links = None, rel_data = None\<rparr>),
            (''child'', \<lparr>rel_links = None, rel_data = None\<rparr>)]\<rparr>],
      doc_included = None\<rparr>)"
  by (rule ex_array_no_id_document)

subsection \<open>Compound documents\<close>

text \<open>
  Where no declared relationship holds an array, every compound document is the resource
  object of a value nested directly in the instance: nothing deeper is collected.
\<close>

lemma foldM_invariant:
  assumes "foldM f a xs = Inr r" and "P a"
    and "\<And>acc x acc'. x \<in> set xs \<Longrightarrow> P acc \<Longrightarrow> f acc x = Inr acc' \<Longrightarrow> P acc'"
  shows "P r"
  using assms
proof (induction xs arbitrary: a)
  case Nil
  then show ?case by simp
next
  case (Cons x xs)
  from Cons.prems(1) obtain a' where a': "f a x = Inr a'" and rest: "foldM f a' xs = Inr r"
    by (auto split: sum.splits)
  have "P a'" using Cons.prems(3) [of x a a'] Cons.prems(2) a' by simp
  with rest show ?case
  proof (rule Cons.IH)
    show "P acc'" if "y \<in> set xs" "P acc" "f acc y = Inr acc'" for acc y acc'
      using Cons.prems(3) [of y acc acc'] that by simp
  qed
qed

lemma flatten_leaves:
  "\<forall>x \<in> set xs. \<exists>v. x = Leaf v \<and> P v \<Longrightarrow> \<forall>v \<in> set (flatten xs). P v"
proof (induction xs)
  case Nil
  then show ?case by simp
next
  case (Cons x xs)
  then obtain v where "x = Leaf v" "P v" by auto
  then show ?case using Cons by simp
qed

lemma buildCompoundDocuments_single_valued:
  assumes "buildCompoundDocuments (JObj r c props) = Inr docs" and "ctor_schema c = Some sch"
    and "\<And>key ra items. key \<in> fst ` set (relationship_schema sch) \<Longrightarrow> lookup props key \<noteq> JArr ra items"
    and "doc \<in> set docs"
  shows "\<exists>key \<in> fst ` set (relationship_schema sch). buildResource (lookup props key) True = Inr doc"
proof -
  let ?keys = "map fst (relationship_schema sch)"
  let ?step = "\<lambda>included key.
                   (let nested = lookup props key
                    in case nested of
                         JArr ra items \<Rightarrow>
                           (case mapM (\<lambda>item. case has_schema item of
                                                Inl e \<Rightarrow> Inl e
                                              | Inr True \<Rightarrow>
                                                  (case buildCompoundDocuments item of
                                                     Inl e \<Rightarrow> Inl e
                                                   | Inr docs \<Rightarrow> Inr (Some (Arr (map Leaf docs))))
                                              | Inr False \<Rightarrow> Inr None) items of
                              Inl e \<Rightarrow> Inl e
                            | Inr deeper \<Rightarrow>
                                (case mapM resource_if_id items of
                                   Inl e \<Rightarrow> Inl e
                                 | Inr resources \<Rightarrow> Inr (included @ deeper @ resources)))
                       | _ \<Rightarrow>
                           (case resource_if_id nested of
                              Inl e \<Rightarrow> Inl e
                            | Inr None \<Rightarrow> Inr included
                            | Inr (Some res) \<Rightarrow> Inr (included @ [Some res])))"
  let ?direct = "\<lambda>res. \<exists>key \<in> fst ` set (relationship_schema sch).
                    buildResource (lookup props key) True = Inr res"
  let ?P = "\<lambda>included. \<forall>x \<in> set included. \<exists>res. x = Some (Leaf res) \<and> ?direct res"
  have so: "schema_of (JObj r c props) = Inr (Some sch)"
  proof (cases "schema_of (JObj r c props)")
    case (Inl e)
    then show ?thesis using assms(1) by simp
  next
    case (Inr found)
    then obtain sch' where found: "schema_of (JObj r c props) = Inr (Some sch')"
      using assms(1) by (cases found) simp_all
    then have "ctor_schema c = Some sch'" by (rule schema_of_Some) simp
    then show ?thesis using found assms(2) by simp
  qed
  from assms(1) obtain included where fold: "foldM ?step [] ?keys = Inr included"
    and docs: "docs = flatten (filter_truthy included)"
    unfolding buildCompoundDocuments.simps so by (auto split: sum.splits)
  have "?P included"
  proof (rule foldM_invariant [OF fold, of ?P])
    show "?P []" by simp
  next
    fix acc key acc'
    assume key: "key \<in> set ?keys" and acc: "?P acc" and step: "?step acc key = Inr acc'"
    from key have k: "key \<in> fst ` set (relationship_schema sch)" by simp
    then have na: "\<forall>ra items. lookup props key \<noteq> JArr ra items" using assms(3) by blast
    from step have s: "(case resource_if_id (lookup props key) of
                              Inl e \<Rightarrow> Inl e
                            | Inr None \<Rightarrow> Inr acc
                            | Inr (Some res) \<Rightarrow> Inr (acc @ [Some res])) = Inr acc'"
      by (simp add: Let_def not_array_case [OF na])
    show "?P acc'"
    proof (cases "resource_if_id (lookup props key)")
      case (Inl e)
      then show ?thesis using s by simp
    next
      case (Inr x)
      show ?thesis
      proof (cases x)
        case None
        then show ?thesis using s Inr acc by simp
      next
        case (Some leaf)
        from Inr Some obtain res where "leaf = Leaf res"
          "buildResource (lookup props key) True = Inr res"
          by (auto simp: resource_if_id_def split: if_splits sum.splits)
        then have new: "\<exists>res. Some leaf = Some (Leaf res) \<and> ?direct res" using k by blast
        have acc': "acc' = acc @ [Some leaf]" using s Inr Some by simp
        show ?thesis unfolding acc' using acc new by (simp add: ball_Un)
      qed
    qed
  qed
  then have inv: "\<And>x. x \<in> set included \<Longrightarrow> \<exists>res. x = Some (Leaf res) \<and> ?direct res"
    by blast
  have "\<forall>x \<in> set (filter_truthy included). \<exists>res. x = Leaf res \<and> ?direct res"
  proof
    fix x
    assume "x \<in> set (filter_truthy included)"
    then have "Some x \<in> set included"
      by (auto simp: filter_truthy_def List.map_filter_def)
    from inv [OF this] show "\<exists>res. x = Leaf res \<and> ?direct res" by simp
  qed
  then have "\<forall>res \<in> set (flatten (filter_truthy included)). ?direct res"
    by (rule flatten_leaves)
  then show ?thesis using docs assms(4) by simp
qed

text \<open>
  C2 says that the compound documents hold a resource object for every nested instance at
  any depth, also one reached through a single-valued relationship of a related instance.
  \<^verbatim>\<open>buildCompoundDocuments\<close> walks into the elements of an array only: the \<^verbatim>\<open>deep\<close>
  instance of a parent's one \<^verbatim>\<open>child\<close> is left out (that of one of its \<^verbatim>\<open>children\<close> is
  there, see \<open>ex_array_chain_documents\<close>).
\<close>

theorem single_relationship_not_walked:
  "buildCompoundDocuments ex_single_chain =
     Inr [\<lparr>res_type = ''child'', res_id = JStr ''2'', res_attributes = [],
           res_relationships = Some
             [(''deep'', \<lparr>rel_links = Some \<lparr>self = ''/childs/2/relationships/deep'',
                                             related = ''/childs/2/deep''\<rparr>,
                          rel_data = Some (One \<lparr>ident_id = JStr ''3'', ident_type = ''single''\<rparr>)\<rparr>)]\<rparr>]"
  by (rule ex_single_chain_documents)


subsection \<open>The missing identifier\<close>

lemma foldM_relationships_distinct:
  "foldM (relationships_step plu props rs) obj keys = Inr rels \<Longrightarrow> distinct (map fst obj) \<Longrightarrow>
   distinct (map fst rels)"
proof (induction keys arbitrary: obj)
  case Nil
  then show ?case by simp
next
  case (Cons k keys)
  from Cons.prems(1) obtain rel where
    rest: "foldM (relationships_step plu props rs) (assign obj k rel) keys = Inr rels"
    by (rule foldM_relationships_Cons)
  have "distinct (map fst (assign obj k rel))"
    using Cons.prems(2) by (simp add: assign_def distinct_update)
  then show ?case using Cons.IH [OF rest] by simp
qed

lemma buildResource_entries:
  assumes "buildResource (JObj r c props) requireId = Inr res"
    and "res_relationships res = Some rels" and "(key, rel) \<in> set rels"
  shows "\<exists>sch. ctor_schema c = Some sch
    \<and> build_relationship (plural c) props (relationship_schema sch) key = Inr rel"
proof -
  from assms(1) obtain r' c' props' sch attrs rels' where
    obj: "JObj r c props = JObj r' c' props'" and sch: "ctor_schema c' = Some sch"
    and fold: "foldM (relationships_step (plural c') props' (relationship_schema sch)) []
       (map fst (relationship_schema sch)) = Inr rels'"
    and res: "res = \<lparr>res_type = singular c', res_id = lookup props' ''id'', res_attributes = attrs,
            res_relationships = (if rels' \<noteq> [] then Some rels' else None)\<rparr>"
    by (rule buildResource_Inr)
  from res assms(2) have rels: "rels' = rels" by (simp split: if_splits)
  have d: "distinct (map fst rels)"
    using foldM_relationships_distinct [OF fold] rels by simp
  have "key \<in> fst ` set rels" using assms(3) by force
  then have "key \<in> set (map fst (relationship_schema sch))"
    using foldM_relationships_keys [OF fold] rels by simp
  from foldM_relationships [OF fold this] obtain rel' where
    built: "build_relationship (plural c') props' (relationship_schema sch) key = Inr rel'"
    and m: "map_of rels key = Some rel'"
    using rels by blast
  have "map_of rels key = Some rel" using d assms(3) by simp
  with m have "rel' = rel" by simp
  with built sch obj show ?thesis by simp
qed

lemma buildResource_no_links:
  assumes "buildResource v requireId = Inr res" and "get v ''id'' = Inr i" and "\<not> truthy i"
    and "res_relationships res = Some rels" and "rel \<in> snd ` set rels"
  shows "rel_links rel = None"
proof -
  from assms(1) obtain r c props sch where v: "v = JObj r c props"
    and sch: "ctor_schema c = Some sch"
    by (rule buildResource_Inr)
  from assms(5) obtain key where "(key, rel) \<in> set rels" by force
  from buildResource_entries [OF assms(1) [unfolded v] assms(4) this] obtain sch' where
    "build_relationship (plural c) props (relationship_schema sch') key = Inr rel" by blast
  from build_relationship_links [OF this] assms(2,3) show ?thesis
    unfolding v get_model_instance [OF sch] by simp
qed












subsection \<open>An identifier that is there and falsy\<close>

lemma ex_shadowed_empty_id_fails:
  "buildResource ex_shadowed_empty_id True = Inl TypeError"
  by (simp add: ex_shadowed_empty_id_def eval_defs)

lemma ex_null_child_empty_id_fails:
  "buildResource ex_null_child_empty_id True = Inl TypeError"
  by (simp add: ex_null_child_empty_id_def eval_defs)

text \<open>
  C10, as stated, has \<^verbatim>\<open>buildResource\<close> succeed for every instance whose own \<^verbatim>\<open>id\<close> is
  falsy. It throws a TypeError where an own property named \<^verbatim>\<open>hasOwnProperty\<close> shadows
  the method the check calls (\<^verbatim>\<open>new Model({ id: '', hasOwnProperty: 'x' })\<close>), and where
  an array-valued relationship holds \<^verbatim>\<open>null\<close> (\<^verbatim>\<open>new Model({ id: '', children: [ null ] })\<close>).
\<close>

theorem falsy_id_not_serialized:
  "own_property ex_shadowed_empty_id ''id''
   \<and> get ex_shadowed_empty_id ''id'' = Inr (JStr [])
   \<and> buildResource ex_shadowed_empty_id True = Inl TypeError
   \<and> own_property ex_null_child_empty_id ''id''
   \<and> get ex_null_child_empty_id ''id'' = Inr (JStr [])
   \<and> buildResource ex_null_child_empty_id True = Inl TypeError"
  by (simp add: ex_shadowed_empty_id_fails ex_null_child_empty_id_fails)
     (simp add: ex_shadowed_empty_id_def ex_null_child_empty_id_def Model_def lookup_def)

text \<open>
  C10, amended: for every instance that \<^verbatim>\<open>buildResource\<close> can serialize
  (\<open>serializable\<close>: an object with no own property named \<^verbatim>\<open>hasOwnProperty\<close> or
  \<^verbatim>\<open>constructor\<close>, whose constructor has a schema with a property schema, and whose
  declared relationships hold no array with an element that is \<^verbatim>\<open>null\<close> or \<^verbatim>\<open>undefined\<close>)
  and whose own \<^verbatim>\<open>id\<close> property holds a falsy value, \<^verbatim>\<open>buildResource\<close> succeeds with
  \<^verbatim>\<open>requireId\<close> set, with the resource object it returns with \<^verbatim>\<open>requireId\<close> unset: the
  check tests the presence of the property; yet no relationship entry has \<^verbatim>\<open>links\<close>,
  since \<^verbatim>\<open>links\<close> depends on the truthiness of the \<^verbatim>\<open>id\<close> value.
\<close>

theorem falsy_id_passes_check:
  assumes "serializable instance" and "own_property instance ''id''"
    and "get instance ''id'' = Inr v" and "\<not> truthy v"
  shows "\<exists>res. buildResource instance True = Inr res
    \<and> buildResource instance False = Inr res
    \<and> res_id res = v
    \<and> (\<forall>rels. res_relationships res = Some rels
          \<longrightarrow> (\<forall>rel \<in> snd ` set rels. rel_links rel = None))"
proof -
  from assms(1) obtain r c props sch where obj: "instance = JObj r c props"
    and sch: "ctor_schema c = Some sch"
    by (rule serializable_object)
  have chk: "check_id (JObj r c props) q = Inr ()" for q
    using check_id_serializable [OF assms(1), of q] assms(2) obj by simp
  have same: "buildResource instance True = buildResource instance False"
    unfolding obj buildResource.simps chk ..
  obtain res where res: "buildResource instance True = Inr res"
    using buildResource_serializable [OF assms(1), of True] assms(2) by blast
  have v: "lookup props ''id'' = v"
    using assms(3) unfolding obj get_model_instance [OF sch] by simp
  from res obtain r' c' props' where "instance = JObj r' c' props'"
    and "res_id res = lookup props' ''id''"
    by (rule buildResource_Inr) simp
  with obj v have rid: "res_id res = v" by simp
  have nl: "rel_links rel = None"
    if "res_relationships res = Some rels" "rel \<in> snd ` set rels" for rels rel
    using res assms(3,4) that by (rule buildResource_no_links)
  have links: "\<forall>rels. res_relationships res = Some rels
          \<longrightarrow> (\<forall>rel \<in> snd ` set rels. rel_links rel = None)"
    by (intro allI impI ballI) (rule nl)
  from res same have "buildResource instance False = Inr res" by simp
  with res rid links show ?thesis by (intro exI conjI)
qed

lemma ex_empty_id_resource:
  "buildResource ex_empty_id True =
     Inr \<lparr>res_type = ''test'', res_id = JStr [], res_attributes = [(''name'', JStr ''test'')],
          res_relationships = Some
            [(''children'', \<lparr>rel_links = None, rel_data = None\<rparr>),
             (''child'', \<lparr>rel_links = None, rel_data = None\<rparr>)]\<rparr>"
  by (simp add: ex_empty_id_def eval_defs)

theorem falsy_id_passes_check_witness:
  "serializable ex_empty_id \<and> own_property ex_empty_id ''id''
   \<and> get ex_empty_id ''id'' = Inr (JStr []) \<and> \<not> truthy (JStr [])
   \<and> buildResource ex_empty_id False = buildResource ex_empty_id True
   \<and> buildResource ex_empty_id True =
       Inr \<lparr>res_type = ''test'', res_id = JStr [], res_attributes = [(''name'', JStr ''test'')],
            res_relationships = Some
              [(''children'', \<lparr>rel_links = None, rel_data = None\<rparr>),
               (''child'', \<lparr>rel_links = None, rel_data = None\<rparr>)]\<rparr>"
proof -
  have ser: "serializable ex_empty_id"
    and own: "own_property ex_empty_id ''id''"
    and val: "get ex_empty_id ''id'' = Inr (JStr [])"
    by (simp_all add: ex_empty_id_def eval_defs)
  have falsy: "\<not> truthy (JStr [])" by simp
  from falsy_id_passes_check [OF ser own val falsy]
  have "buildResource ex_empty_id False = buildResource ex_empty_id True" by auto
  then show ?thesis using ser own val ex_empty_id_resource by simp
qed

end
